theory Spec2Isabelle
  imports Main "HOL-Library.Sublist"
begin

section \<open>CareerHub: the page script \<^verbatim>\<open>script.js\<close>\<close>

text \<open>
  The script is DOM glue: it reads and mutates elements of the loaded page. The embedding
  keeps, for each feature, the part of the document that feature reads or writes as a
  record, and turns every function of the script into a function from that state to the
  state it leaves. A JavaScript \<^verbatim>\<open>TypeError\<close> (a property read on \<^verbatim>\<open>null\<close> or
  \<^verbatim>\<open>undefined\<close>) is a value: an operation either returns, or throws and leaves the
  state as it was at the throw.
\<close>

subsection \<open>Strings\<close>

text \<open>
  A string is a list of code units; the model works with the code units below 256
  (ASCII and the Latin-1 supplement), which is what \<^typ>\<open>char\<close> holds. The multiplication
  sign of the remove control is code unit \<open>0xD7\<close>.
\<close>

text \<open>\<^verbatim>\<open>String.prototype.toLowerCase\<close>: A-Z, and the Latin-1 capitals
  \<open>0xC0\<close>-\<open>0xD6\<close> and \<open>0xD8\<close>-\<open>0xDE\<close>, move up by 32; every other code unit stays.\<close>

definition toLowerCase_char :: "char \<Rightarrow> char" where
  "toLowerCase_char c =
     (let n = (of_char c :: nat)
      in if (65 \<le> n \<and> n \<le> 90) \<or> (192 \<le> n \<and> n \<le> 214) \<or> (216 \<le> n \<and> n \<le> 222)
         then char_of (n + 32) else c)"

definition toLowerCase :: "string \<Rightarrow> string" where
  "toLowerCase s = map toLowerCase_char s"

text \<open>\<^verbatim>\<open>String.prototype.trim\<close> strips white space and line terminators from both ends:
  TAB, LF, VT, FF, CR, SPACE and NBSP among the code units below 256.\<close>

definition isWhiteSpace :: "char \<Rightarrow> bool" where
  "isWhiteSpace c = ((of_char c :: nat) \<in> {9, 10, 11, 12, 13, 32, 160})"

definition trim :: "string \<Rightarrow> string" where
  "trim s = rev (dropWhile isWhiteSpace (rev (dropWhile isWhiteSpace s)))"

text \<open>\<^verbatim>\<open>s.split(',')\<close>: the segments between commas; the empty string has the one
  segment \<open>''''\<close>.\<close>

fun split_comma :: "string \<Rightarrow> string list" where
  "split_comma [] = [[]]"
| "split_comma (c # cs) =
     (if c = CHR '','' then [] # split_comma cs
      else (case split_comma cs of
              [] \<Rightarrow> [[c]]
            | seg # segs \<Rightarrow> (c # seg) # segs))"

text \<open>\<^verbatim>\<open>s.includes(t)\<close>: \<open>t\<close> occurs in \<open>s\<close> as a contiguous run.\<close>

fun includes_str :: "string \<Rightarrow> string \<Rightarrow> bool" where
  "includes_str [] t = (t = [])"
| "includes_str (c # cs) t = (prefix t (c # cs) \<or> includes_str cs t)"

text \<open>\<^verbatim>\<open>s.endsWith(t)\<close>.\<close>

definition endsWith :: "string \<Rightarrow> string \<Rightarrow> bool" where
  "endsWith s t = (length t \<le> length s \<and> drop (length s - length t) s = t)"

text \<open>\<^verbatim>\<open>s.replace(pat, rep)\<close> with a string pattern: only the first occurrence of
  \<open>pat\<close> is replaced.\<close>

fun replace_str :: "string \<Rightarrow> string \<Rightarrow> string \<Rightarrow> string" where
  "replace_str [] pat rep = (if pat = [] then rep else [])"
| "replace_str (c # cs) pat rep =
     (if prefix pat (c # cs) then rep @ drop (length pat) (c # cs)
      else c # replace_str cs pat rep)"

text \<open>\<^verbatim>\<open>parts.join(sep)\<close>.\<close>

fun join_str :: "string \<Rightarrow> string list \<Rightarrow> string" where
  "join_str sep [] = []"
| "join_str sep [x] = x"
| "join_str sep (x # y # ys) = x @ sep @ join_str sep (y # ys)"

subsection \<open>Outcomes\<close>

datatype error = TypeError

text \<open>An operation returns a value and the state it leaves, or throws and leaves the state
  as mutated up to the throw.\<close>

datatype ('a, 's) outcome = Returned 'a 's | Thrown error 's

subsection \<open>The skill-tag widget (lines 161-308)\<close>

text \<open>
  The part of the document the widget touches. \<open>user_skills\<close> is the value of
  \<^verbatim>\<open>input[name="user_skills"]\<close>: the text box the user types in and the field the
  script writes the joined tags to are this one element. \<open>skill_tags\<close> holds the
  \<^verbatim>\<open>textContent\<close> of every \<^verbatim>\<open>.skill-tag\<close> element in document order (the chips
  all live in the tag container, so a new chip is the last). \<open>suggestions_dropdowns\<close>
  holds the \<^verbatim>\<open>.suggestions-dropdown\<close> elements attached to the document, each as the
  texts of its items. \<open>notifications\<close> are the banners shown so far, as (message, type).
  The skills input is a text box: its value holds no line break, and a script's
  assignment to \<^verbatim>\<open>value\<close> drops every LF and CR of the assigned string.
\<close>

record page =
  user_skills :: "string option"
  skill_tags_container :: bool
  skill_tags :: "string list"
  suggestions_dropdowns :: "string list list"
  notifications :: "(string \<times> string) list"

text \<open>The remove control's text, \<^verbatim>\<open>' \<times>'\<close> in the source (line 274).\<close>

definition glyph :: string where
  "glyph = [CHR '' '', CHR 0xD7]"

text \<open>\<^verbatim>\<open>createSkillTagsContainer\<close> (lines 286-301): the container is inserted before the
  input; \<^verbatim>\<open>skillsInput.parentNode\<close> throws when the page has no such input.\<close>

definition createSkillTagsContainer :: "page \<Rightarrow> (unit, page) outcome" where
  "createSkillTagsContainer p =
     (case user_skills p of
        None \<Rightarrow> Thrown TypeError p
      | Some v \<Rightarrow> Returned () (p\<lparr>skill_tags_container := True\<rparr>))"

text \<open>What assigning to the \<^verbatim>\<open>value\<close> of a text input keeps of a string.\<close>

definition isLineBreak :: "char \<Rightarrow> bool" where
  "isLineBreak c = (c = CHR 0x0A \<or> c = CHR 0x0D)"

definition strip_newlines :: "string \<Rightarrow> string" where
  "strip_newlines s = filter (\<lambda>c. \<not> isLineBreak c) s"

text \<open>\<^verbatim>\<open>updateSkillsInput\<close> (lines 303-308).\<close>

definition updateSkillsInput :: "page \<Rightarrow> (unit, page) outcome" where
  "updateSkillsInput p =
     (let skills = map (\<lambda>tag. replace_str tag glyph []) (skill_tags p)
      in case user_skills p of
           None \<Rightarrow> Thrown TypeError p
         | Some v \<Rightarrow>
             Returned () (p\<lparr>user_skills := Some (strip_newlines (join_str '', '' skills))\<rparr>))"

text \<open>\<^verbatim>\<open>addSkillTag\<close> (lines 256-284). \<^verbatim>\<open>!skill\<close> is true of the empty string only.
  The chip's text content is the skill followed by the remove control's text.\<close>

definition addSkillTag :: "string \<Rightarrow> page \<Rightarrow> (unit, page) outcome" where
  "addSkillTag skill p =
     (if skill = [] then Returned () p
      else
        (case (if skill_tags_container p then Returned () p else createSkillTagsContainer p) of
           Thrown e q \<Rightarrow> Thrown e q
         | Returned u q \<Rightarrow>
             updateSkillsInput (q\<lparr>skill_tags := skill_tags q @ [skill @ glyph]\<rparr>)))"

text \<open>The click handler of a chip's remove control (lines 276-279), for the chip at
  position \<open>i\<close>; a position with no chip has no control to click.\<close>

definition removeTag :: "nat \<Rightarrow> page \<Rightarrow> (unit, page) outcome" where
  "removeTag i p =
     (if i < length (skill_tags p)
      then updateSkillsInput (p\<lparr>skill_tags := take i (skill_tags p) @ drop (Suc i) (skill_tags p)\<rparr>)
      else Returned () p)"

text \<open>\<^verbatim>\<open>hideSuggestionsDropdown\<close> (lines 249-254): \<^verbatim>\<open>querySelector\<close> finds the first
  dropdown of the document, which is removed.\<close>

definition hideSuggestionsDropdown :: "page \<Rightarrow> page" where
  "hideSuggestionsDropdown p =
     (case suggestions_dropdowns p of
        [] \<Rightarrow> p
      | existing # others \<Rightarrow> p\<lparr>suggestions_dropdowns := others\<rparr>)"

text \<open>
  The second argument of \<^verbatim>\<open>showSuggestionsDropdown\<close>. The function's body treats it as
  the input element (\<^verbatim>\<open>input.parentNode\<close>, \<^verbatim>\<open>input.value\<close>); its only caller,
  \<^verbatim>\<open>showSkillSuggestions\<close> (line 198), passes on the string it was given
  (\<^verbatim>\<open>this.value\<close>, line 169).
\<close>

datatype input_arg = Text string | InputElement

text \<open>
  \<^verbatim>\<open>showSuggestionsDropdown\<close> (lines 204-247). The dropdown gets an item for each of the
  first five suggestions. On a string, \<^verbatim>\<open>input.parentNode\<close> is \<^verbatim>\<open>undefined\<close> and
  reading its \<^verbatim>\<open>style\<close> (line 245) throws before the dropdown is attached; on the
  input element the dropdown is appended to the element's parent.
\<close>

definition showSuggestionsDropdown :: "string list \<Rightarrow> input_arg \<Rightarrow> page \<Rightarrow> (unit, page) outcome" where
  "showSuggestionsDropdown suggestions input p =
     (let p1 = hideSuggestionsDropdown p;
          dropdown = take 5 suggestions
      in case input of
           Text s \<Rightarrow> Thrown TypeError p1
         | InputElement \<Rightarrow>
             Returned () (p1\<lparr>suggestions_dropdowns := suggestions_dropdowns p1 @ [dropdown]\<rparr>))"

text \<open>The click handler of a dropdown item (lines 237-241). Assigning \<^verbatim>\<open>value\<close> on a
  string primitive has no effect (the script is not in strict mode).\<close>

definition suggestionClick :: "string \<Rightarrow> input_arg \<Rightarrow> page \<Rightarrow> (unit, page) outcome" where
  "suggestionClick skill input p =
     (case addSkillTag skill p of
        Thrown e q \<Rightarrow> Thrown e q
      | Returned u q \<Rightarrow>
          Returned () (hideSuggestionsDropdown
            (case input of Text s \<Rightarrow> q | InputElement \<Rightarrow> q\<lparr>user_skills := Some []\<rparr>)))"

text \<open>The fixed vocabulary (lines 184-190).\<close>

definition suggestions :: "string list" where
  "suggestions =
     [''Python'', ''JavaScript'', ''Java'', ''C++'', ''C#'', ''PHP'', ''Ruby'', ''Swift'', ''Kotlin'',
      ''HTML'', ''CSS'', ''React'', ''Angular'', ''Vue.js'', ''Node.js'', ''Django'', ''Flask'',
      ''MySQL'', ''PostgreSQL'', ''MongoDB'', ''SQLite'', ''Oracle'',
      ''Git'', ''Docker'', ''AWS'', ''Azure'', ''Linux'', ''Windows'', ''MacOS'',
      ''Communication'', ''Teamwork'', ''Problem Solving'', ''Leadership'', ''Time Management'']"

text \<open>The list \<^verbatim>\<open>filtered\<close> of \<^verbatim>\<open>showSkillSuggestions\<close> (lines 192-195).\<close>

definition filtered :: "string \<Rightarrow> string list" where
  "filtered input =
     filter (\<lambda>skill.
        includes_str (toLowerCase skill) (toLowerCase input) \<and>
        \<not> list_ex (\<lambda>entered. toLowerCase (trim entered) = toLowerCase skill) (split_comma input))
       suggestions"

text \<open>\<^verbatim>\<open>showSkillSuggestions\<close> (lines 183-202).\<close>

definition showSkillSuggestions :: "string \<Rightarrow> page \<Rightarrow> (unit, page) outcome" where
  "showSkillSuggestions input p =
     (if length (filtered input) > 0 \<and> length input > 1
      then showSuggestionsDropdown (filtered input) (Text input) p
      else Returned () (hideSuggestionsDropdown p))"

text \<open>
  The listeners \<^verbatim>\<open>initializeJobMatching\<close> (lines 162-181) puts on the skills input; a
  page without the input gets none. \<open>onInput\<close> is the \<^verbatim>\<open>input\<close> event after the user
  has changed the text to \<open>text\<close>; \<open>onKeydown\<close> returns whether the key's default action
  was prevented.
\<close>

definition onInput :: "string \<Rightarrow> page \<Rightarrow> (unit, page) outcome" where
  "onInput text p =
     (case user_skills p of
        None \<Rightarrow> Returned () p
      | Some v \<Rightarrow> showSkillSuggestions text (p\<lparr>user_skills := Some text\<rparr>))"

definition onKeydown :: "string \<Rightarrow> page \<Rightarrow> (bool, page) outcome" where
  "onKeydown key p =
     (case user_skills p of
        None \<Rightarrow> Returned False p
      | Some v \<Rightarrow>
          if key = ''Enter'' \<or> key = '','' then
            (case addSkillTag (trim v) p of
               Thrown e q \<Rightarrow> Thrown e q
             | Returned u q \<Rightarrow> Returned True (q\<lparr>user_skills := Some []\<rparr>))
          else Returned False p)"

text \<open>The state an operation leaves, returned or thrown: what the next event finds.\<close>

fun state_of :: "('a, 's) outcome \<Rightarrow> 's" where
  "state_of (Returned x s) = s"
| "state_of (Thrown e s) = s"

text \<open>The events of the widget: the user's, and a call of the exported
  \<^verbatim>\<open>CareerHub.addSkillTag\<close> (lines 563-567) by another script.\<close>

datatype event =
    InputEvent string
  | KeydownEvent string
  | RemoveClick nat
  | AddSkillTagCall string

fun handle :: "event \<Rightarrow> page \<Rightarrow> page" where
  "handle (InputEvent text) p = state_of (onInput text p)"
| "handle (KeydownEvent key) p = state_of (onKeydown key p)"
| "handle (RemoveClick i) p = state_of (removeTag i p)"
| "handle (AddSkillTagCall skill) p = state_of (addSkillTag skill p)"

fun run :: "event list \<Rightarrow> page \<Rightarrow> page" where
  "run [] p = p"
| "run (ev # evs) p = run evs (handle ev p)"

text \<open>
  The value the specification gives the backing field (section 4.1,
  \<open>recomputeBackingField\<close>): the chips' texts, each with its trailing remove-control
  glyph stripped, joined with a comma and a space. It is written from the specification's
  words, to be compared with \<open>updateSkillsInput\<close>.
\<close>

definition strip_trailing_glyph :: "string \<Rightarrow> string" where
  "strip_trailing_glyph tag =
     (if endsWith tag glyph then take (length tag - length glyph) tag else tag)"

definition spec_recomputeBackingField :: "string list \<Rightarrow> string" where
  "spec_recomputeBackingField tags = join_str '', '' (map strip_trailing_glyph tags)"

text \<open>The widget of a page as loaded: the skills input is there and empty, and the
  script has created nothing yet.\<close>

definition loaded_page :: page where
  "loaded_page =
     \<lparr>user_skills = Some [], skill_tags_container = False, skill_tags = [],
      suggestions_dropdowns = [], notifications = []\<rparr>"

text \<open>A skill text that does not contain the remove control's text.\<close>

definition glyph_free :: "string \<Rightarrow> bool" where
  "glyph_free skill = (\<not> includes_str skill glyph)"

text \<open>A text without LF and CR.\<close>

definition line_free :: "string \<Rightarrow> bool" where
  "line_free s = list_all (\<lambda>c. \<not> isLineBreak c) s"

text \<open>The skills input exists and every chip is a glyph-free skill without line breaks
  followed by the remove control's text, as \<open>addSkillTag\<close> builds it from such a skill.\<close>

definition chips_well_formed :: "page \<Rightarrow> bool" where
  "chips_well_formed p =
     (user_skills p \<noteq> None \<and>
      list_all (\<lambda>tag. endsWith tag glyph \<and> glyph_free (take (length tag - length glyph) tag) \<and>
                     line_free tag)
        (skill_tags p))"

definition backing_field_in_sync :: "page \<Rightarrow> bool" where
  "backing_field_in_sync p =
     (chips_well_formed p \<and> user_skills p = Some (spec_recomputeBackingField (skill_tags p)))"

text \<open>The commit and remove operations: a call of \<open>addSkillTag\<close> with a glyph-free
  skill that has no line break, and a click on a chip's remove control.\<close>

fun tag_operation :: "event \<Rightarrow> bool" where
  "tag_operation (AddSkillTagCall skill) = (glyph_free skill \<and> line_free skill)"
| "tag_operation (RemoveClick i) = True"
| "tag_operation (InputEvent text) = False"
| "tag_operation (KeydownEvent key) = False"

subsection \<open>The form guard (lines 18-109)\<close>

record js_file =
  file_name :: string
  file_size :: nat

datatype tag_name = TEXTAREA | INPUT | SELECT

text \<open>
  A form control: its tag, its \<^verbatim>\<open>id\<close> and \<^verbatim>\<open>name\<close> attributes, its value, its
  \<^verbatim>\<open>files\<close> (of a file input only), whether it carries the \<^verbatim>\<open>required\<close> attribute,
  the node that is its \<^verbatim>\<open>parentNode\<close>, and its \<^verbatim>\<open>style.borderColor\<close>.
\<close>

record element =
  el_tag :: tag_name
  el_id :: string
  el_name :: string
  el_value :: string
  el_files :: "js_file list option"
  el_required :: bool
  el_parent :: nat
  el_borderColor :: string

text \<open>
  A form: its \<^verbatim>\<open>action\<close> attribute, its controls in document order, the
  \<^verbatim>\<open>.field-error\<close> elements under the controls' parents, each as (parent node, text) in
  the order they were appended, and the number of \<^verbatim>\<open>.cv-tips\<close> boxes appended to the
  form. The parents of two controls are the same node or have no node in common, so the
  first \<^verbatim>\<open>.field-error\<close> below a parent is the first one appended to it.
\<close>

record form =
  form_action :: string
  form_elements :: "element list"
  form_errors :: "(nat \<times> string) list"
  form_tips :: nat

text \<open>\<^verbatim>\<open>querySelector\<close>: the first match in document order, as a position.\<close>

fun first_index :: "('a \<Rightarrow> bool) \<Rightarrow> 'a list \<Rightarrow> nat option" where
  "first_index P [] = None"
| "first_index P (x # xs) = (if P x then Some 0 else map_option Suc (first_index P xs))"

fun remove_first :: "('a \<Rightarrow> bool) \<Rightarrow> 'a list \<Rightarrow> 'a list" where
  "remove_first P [] = []"
| "remove_first P (x # xs) = (if P x then xs else x # remove_first P xs)"

text \<open>\<^verbatim>\<open>form.querySelector('textarea[name="cv_text"]')\<close> and
  \<^verbatim>\<open>form.querySelector('#cv_file')\<close> (lines 24-25 and 72-74).\<close>

definition cvTextarea :: "form \<Rightarrow> nat option" where
  "cvTextarea f = first_index (\<lambda>e. el_tag e = TEXTAREA \<and> el_name e = ''cv_text'') (form_elements f)"

definition cvFile :: "form \<Rightarrow> nat option" where
  "cvFile f = first_index (\<lambda>e. el_id e = ''cv_file'') (form_elements f)"

text \<open>\<^verbatim>\<open>cvFile && cvFile.files && cvFile.files.length > 0\<close> and
  \<^verbatim>\<open>cvTextarea.value.trim().length > 0\<close>.\<close>

definition hasFile :: "form \<Rightarrow> bool" where
  "hasFile f =
     (case cvFile f of
        None \<Rightarrow> False
      | Some j \<Rightarrow>
          (case el_files (form_elements f ! j) of
             None \<Rightarrow> False
           | Some fs \<Rightarrow> length fs > 0))"

definition hasText :: "form \<Rightarrow> nat \<Rightarrow> bool" where
  "hasText f i = (length (trim (el_value (form_elements f ! i))) > 0)"

text \<open>\<^verbatim>\<open>setAttribute('required', '')\<close> and \<^verbatim>\<open>removeAttribute('required')\<close> on the
  control at position \<open>i\<close>.\<close>

definition set_required :: "nat \<Rightarrow> bool \<Rightarrow> form \<Rightarrow> form" where
  "set_required i b f =
     f\<lparr>form_elements := (form_elements f)[i := (form_elements f ! i)\<lparr>el_required := b\<rparr>]\<rparr>"

text \<open>\<^verbatim>\<open>syncRequired\<close> (lines 27-35). The closure's \<^verbatim>\<open>cvTextarea\<close> and \<^verbatim>\<open>cvFile\<close> are
  the two lookups of lines 24-25; the script never changes a tag, a name or an id, so
  looking them up again finds the same elements.\<close>

definition syncRequired :: "form \<Rightarrow> (unit, form) outcome" where
  "syncRequired f =
     (case cvTextarea f of
        None \<Rightarrow> Thrown TypeError f
      | Some i \<Rightarrow>
          if hasText f i \<or> hasFile f
          then Returned () (set_required i False f)
          else Returned () (set_required i True f))"

text \<open>\<^verbatim>\<open>clearFieldError\<close> (lines 103-109) and \<^verbatim>\<open>showFieldError\<close> (lines 89-101).\<close>

definition clearFieldError :: "nat \<Rightarrow> form \<Rightarrow> form" where
  "clearFieldError i f =
     f\<lparr>form_errors :=
         remove_first (\<lambda>err. fst err = el_parent (form_elements f ! i)) (form_errors f),
       form_elements := (form_elements f)[i := (form_elements f ! i)\<lparr>el_borderColor := []\<rparr>]\<rparr>"

definition showFieldError :: "nat \<Rightarrow> string \<Rightarrow> form \<Rightarrow> form" where
  "showFieldError i message f =
     (let g = clearFieldError i f
      in g\<lparr>form_errors := form_errors g @ [(el_parent (form_elements g ! i), message)],
           form_elements :=
             (form_elements g)[i := (form_elements g ! i)\<lparr>el_borderColor := ''#e74c3c''\<rparr>]\<rparr>)"

text \<open>\<^verbatim>\<open>validateForm\<close> (lines 57-87). \<open>requiredFields\<close> is the snapshot
  \<^verbatim>\<open>form.querySelectorAll('[required]')\<close>; \<open>validateFields\<close> is the \<^verbatim>\<open>forEach\<close> over it,
  carrying \<^verbatim>\<open>isValid\<close>.\<close>

definition requiredFields :: "form \<Rightarrow> nat list" where
  "requiredFields f =
     filter (\<lambda>i. el_required (form_elements f ! i)) [0..<length (form_elements f)]"

fun validateFields :: "nat list \<Rightarrow> form \<Rightarrow> bool \<Rightarrow> form \<times> bool" where
  "validateFields [] f isValid = (f, isValid)"
| "validateFields (i # rest) f isValid =
     (if trim (el_value (form_elements f ! i)) = []
      then validateFields rest (showFieldError i ''This field is required'' f) False
      else validateFields rest (clearFieldError i f) isValid)"

definition validateForm :: "form \<Rightarrow> (bool, form) outcome" where
  "validateForm f =
     (case validateFields (requiredFields f) f True of
        (f1, isValid) \<Rightarrow>
          if form_action f1 = ''/analyze'' then
            (case cvTextarea f1 of
               None \<Rightarrow> Thrown TypeError f1
             | Some i \<Rightarrow>
                 if \<not> hasFile f1 \<and> \<not> hasText f1 i
                 then Returned False (set_required i True f1)
                 else Returned isValid (set_required i False f1))
          else Returned isValid f1)"

text \<open>The submit listener every form gets (lines 43-53); the result is whether
  \<^verbatim>\<open>preventDefault\<close> was called.\<close>

definition onSubmit :: "form \<Rightarrow> (bool, form) outcome" where
  "onSubmit f =
     (case validateForm f of
        Thrown e g \<Rightarrow> Thrown e g
      | Returned ok g \<Rightarrow> Returned (\<not> ok \<and> form_action g \<noteq> ''/analyze'') g)"

text \<open>A submit event on a form set up by \<^verbatim>\<open>initializeFormValidation\<close>: the analyze
  form's \<^verbatim>\<open>syncRequired\<close> listener (line 40) runs first, then the listener of line 43.\<close>

definition submitEvent :: "form \<Rightarrow> (bool, form) outcome" where
  "submitEvent f =
     (if form_action f = ''/analyze'' then onSubmit (state_of (syncRequired f))
      else onSubmit f)"

text \<open>
  \<^verbatim>\<open>initializeFormValidation\<close> (lines 19-55), as the listeners it has registered, each
  with the position of its form on the page. \<^verbatim>\<open>cvTextarea.addEventListener\<close> (line 37)
  and \<^verbatim>\<open>cvFile.addEventListener\<close> (line 38) throw on \<^verbatim>\<open>null\<close>, which ends the
  \<^verbatim>\<open>forEach\<close>.
\<close>

datatype listener =
    SyncRequiredOnInput nat
  | SyncRequiredOnChange nat
  | SyncRequiredOnSubmit nat
  | ValidateOnSubmit nat

fun initializeForms :: "nat \<Rightarrow> form list \<Rightarrow> listener list \<Rightarrow> (unit, listener list) outcome" where
  "initializeForms k [] ls = Returned () ls"
| "initializeForms k (f # fs) ls =
     (if form_action f = ''/analyze'' then
        (case cvTextarea f of
           None \<Rightarrow> Thrown TypeError ls
         | Some i \<Rightarrow>
             (case cvFile f of
                None \<Rightarrow> Thrown TypeError (ls @ [SyncRequiredOnInput k])
              | Some j \<Rightarrow>
                  initializeForms (Suc k) fs
                    (ls @ [SyncRequiredOnInput k, SyncRequiredOnChange k,
                           SyncRequiredOnSubmit k, ValidateOnSubmit k])))
      else initializeForms (Suc k) fs (ls @ [ValidateOnSubmit k]))"

definition initializeFormValidation :: "form list \<Rightarrow> (unit, listener list) outcome" where
  "initializeFormValidation forms = initializeForms 0 forms []"

text \<open>
  \<^verbatim>\<open>showCVTips\<close> (lines 421-449): the tips box is appended to the first form whose action
  is \<^verbatim>\<open>/analyze\<close>; \<^verbatim>\<open>cvForm.appendChild\<close> throws when the page has none.
  \<^verbatim>\<open>initializeCVAnalysis\<close> (lines 311-342) calls it when the page has a
  \<^verbatim>\<open>cv_text\<close> textarea (here: in one of its forms); the character counter it adds
  beside the textarea is presentation only and is left out.
\<close>

definition showCVTips :: "form list \<Rightarrow> (unit, form list) outcome" where
  "showCVTips forms =
     (case first_index (\<lambda>f. form_action f = ''/analyze'') forms of
        None \<Rightarrow> Thrown TypeError forms
      | Some k \<Rightarrow> Returned () (forms[k := (forms ! k)\<lparr>form_tips := Suc (form_tips (forms ! k))\<rparr>]))"

definition initializeCVAnalysis :: "form list \<Rightarrow> (unit, form list) outcome" where
  "initializeCVAnalysis forms =
     (if list_ex (\<lambda>f. cvTextarea f \<noteq> None) forms then showCVTips forms
      else Returned () forms)"

subsection \<open>The file validator (lines 344-377)\<close>

text \<open>
  What the \<^verbatim>\<open>change\<close> listener of \<^verbatim>\<open>#cv_file\<close> reads and writes: the input's
  \<^verbatim>\<open>files\<close>, the banners shown so far as (message, type), the \<^verbatim>\<open>style.display\<close> of
  \<^verbatim>\<open>#cv_file_badge\<close> and the text of \<^verbatim>\<open>#cv_file_name\<close> (each \<open>None\<close> when the page
  has no such element), and whether the floating menu \<^verbatim>\<open>.fab-upload\<close> has the class
  \<^verbatim>\<open>open\<close> (\<open>None\<close> without a menu). A page without \<^verbatim>\<open>#cv_file\<close> gets no listener
  (line 347).
\<close>

record upload =
  upload_files :: "js_file list"
  upload_notifications :: "(string \<times> string) list"
  cv_file_badge :: "string option"
  cv_file_name :: "string option"
  fab_open :: "bool option"

text \<open>\<^verbatim>\<open>showNotification\<close> (lines 491-522): the banner is appended to the body; the
  timers that take it away again are not modelled.\<close>

definition showNotification :: "string \<Rightarrow> string \<Rightarrow> upload \<Rightarrow> upload" where
  "showNotification message type u =
     u\<lparr>upload_notifications := upload_notifications u @ [(message, type)]\<rparr>"

text \<open>The \<^verbatim>\<open>change\<close> listener (lines 349-376). Setting the value of a file input to the
  empty string clears its selection.\<close>

definition onFileChange :: "upload \<Rightarrow> upload" where
  "onFileChange u =
     (case upload_files u of
        [] \<Rightarrow> u
      | file # rest \<Rightarrow>
          let nameAllowed = endsWith (toLowerCase (file_name file)) ''.pdf'' \<or>
                            endsWith (toLowerCase (file_name file)) ''.docx''
          in if \<not> nameAllowed then
               (showNotification ''Only PDF or DOCX files are accepted.'' ''error'' u)
                 \<lparr>upload_files := []\<rparr>
             else if file_size file > 8 * 1024 * 1024 then
               (showNotification ''File is too large (max 8MB).'' ''error'' u)
                 \<lparr>upload_files := []\<rparr>
             else
               let u1 = showNotification (''File selected: '' @ file_name file) ''success'' u;
                   u2 = (case (cv_file_badge u1, cv_file_name u1) of
                           (Some display, Some text) \<Rightarrow>
                             u1\<lparr>cv_file_name := Some (file_name file),
                                cv_file_badge := Some ''inline-flex''\<rparr>
                         | _ \<Rightarrow> u1)
               in (case fab_open u2 of
                     Some True \<Rightarrow> u2\<lparr>fab_open := Some False\<rparr>
                   | _ \<Rightarrow> u2))"

subsection \<open>Concrete pages\<close>

text \<open>Controls and forms to run the model on: the \<^verbatim>\<open>cv_text\<close> textarea, the
  \<^verbatim>\<open>#cv_file\<close> input, a text input, the analyze form made of the first two, and the
  upload state after the user has picked one file (badge hidden, menu open).\<close>

definition cv_text_control :: "string \<Rightarrow> bool \<Rightarrow> element" where
  "cv_text_control v r =
     \<lparr>el_tag = TEXTAREA, el_id = ''cv_text'', el_name = ''cv_text'', el_value = v,
      el_files = None, el_required = r, el_parent = 1, el_borderColor = []\<rparr>"

definition cv_file_control :: "js_file list \<Rightarrow> element" where
  "cv_file_control fs =
     \<lparr>el_tag = INPUT, el_id = ''cv_file'', el_name = ''cv_file'', el_value = [],
      el_files = Some fs, el_required = False, el_parent = 2, el_borderColor = []\<rparr>"

definition text_control :: "string \<Rightarrow> string \<Rightarrow> bool \<Rightarrow> nat \<Rightarrow> element" where
  "text_control n v r par =
     \<lparr>el_tag = INPUT, el_id = n, el_name = n, el_value = v,
      el_files = None, el_required = r, el_parent = par, el_borderColor = []\<rparr>"

definition analyze_form :: "string \<Rightarrow> bool \<Rightarrow> js_file list \<Rightarrow> form" where
  "analyze_form v r fs =
     \<lparr>form_action = ''/analyze'', form_elements = [cv_text_control v r, cv_file_control fs],
      form_errors = [], form_tips = 0\<rparr>"

definition picked :: "string \<Rightarrow> nat \<Rightarrow> upload" where
  "picked n sz =
     \<lparr>upload_files = [\<lparr>file_name = n, file_size = sz\<rparr>], upload_notifications = [],
      cv_file_badge = Some ''none'', cv_file_name = Some [], fab_open = Some True\<rparr>"

section \<open>Properties\<close>

subsection \<open>Strings\<close>

lemma toLowerCase_append: "toLowerCase (a @ b) = toLowerCase a @ toLowerCase b"
  by (simp add: toLowerCase_def)

lemma includes_str_iff: "includes_str s t \<longleftrightarrow> (\<exists>a b. s = a @ t @ b)"
proof (induction s)
  case Nil
  then show ?case by auto
next
  case (Cons c cs)
  show ?case
  proof
    assume "includes_str (c # cs) t"
    then consider "prefix t (c # cs)" | "includes_str cs t" by auto
    then show "\<exists>a b. c # cs = a @ t @ b"
    proof cases
      case 1
      then obtain b where "c # cs = t @ b" by (auto simp: prefix_def)
      then have "c # cs = [] @ t @ b" by simp
      then show ?thesis by blast
    next
      case 2
      then obtain a b where "cs = a @ t @ b" using Cons.IH by blast
      then have "c # cs = (c # a) @ t @ b" by simp
      then show ?thesis by blast
    qed
  next
    assume "\<exists>a b. c # cs = a @ t @ b"
    then obtain a b where ab: "c # cs = a @ t @ b" by blast
    show "includes_str (c # cs) t"
    proof (cases a)
      case Nil
      with ab have "prefix t (c # cs)" by (simp add: prefix_def)
      then show ?thesis by simp
    next
      case (Cons x a')
      with ab have "cs = a' @ t @ b" by simp
      then have "includes_str cs t" using Cons.IH by blast
      then show ?thesis by simp
    qed
  qed
qed

text \<open>The segments of \<open>split_comma\<close> hold no comma, and joined with commas they give the
  text back.\<close>

lemma split_comma_not_Nil: "split_comma t \<noteq> []"
  by (induction t) (auto split: list.splits)

lemma join_str_Cons: "join_str sep ((c # x) # xs) = c # join_str sep (x # xs)"
  by (cases xs) simp_all

lemma split_comma_join: "join_str '','' (split_comma t) = t"
proof (induction t)
  case Nil
  show ?case by simp
next
  case (Cons c cs)
  obtain seg segs where s: "split_comma cs = seg # segs"
    using split_comma_not_Nil [of cs] by (cases "split_comma cs") auto
  with Cons show ?case by (simp add: join_str_Cons)
qed

lemma split_comma_no_comma: "seg \<in> set (split_comma t) \<Longrightarrow> CHR '','' \<notin> set seg"
proof (induction t arbitrary: seg)
  case Nil
  then show ?case by simp
next
  case (Cons c cs)
  obtain x xs where s: "split_comma cs = x # xs"
    using split_comma_not_Nil [of cs] by (cases "split_comma cs") auto
  with Cons show ?case by (auto split: if_splits)
qed

lemma endsWith_append: "endsWith (s @ t) t"
  by (simp add: endsWith_def)

lemma endsWith_iff: "endsWith s t \<longleftrightarrow> (\<exists>a. s = a @ t)"
proof
  assume "endsWith s t"
  then have "s = take (length s - length t) s @ t"
    by (metis append_take_drop_id endsWith_def)
  then show "\<exists>a. s = a @ t" ..
next
  assume "\<exists>a. s = a @ t"
  then show "endsWith s t" by (auto simp: endsWith_def)
qed

text \<open>On a chip built from a glyph-free skill, the first occurrence of the remove control's
  text is the trailing one.\<close>

lemma replace_glyph:
  "glyph_free skill \<Longrightarrow> replace_str (skill @ glyph) glyph [] = skill"
proof (induction skill)
  case Nil
  show ?case by (simp add: glyph_def)
next
  case (Cons c cs)
  from Cons.prems have np: "\<not> prefix glyph (c # cs)" and gf: "glyph_free cs"
    by (simp_all add: glyph_free_def)
  have "\<not> prefix glyph ((c # cs) @ glyph)"
  proof (cases cs)
    case Nil
    then show ?thesis by (auto simp: glyph_def)
  next
    case (Cons d ds)
    with np show ?thesis by (auto simp: glyph_def)
  qed
  with Cons.IH [OF gf] show ?case by simp
qed

lemma strip_chip: "strip_trailing_glyph (skill @ glyph) = skill"
  by (simp add: strip_trailing_glyph_def endsWith_append)

lemma well_formed_tag:
  assumes "endsWith tag glyph" "glyph_free (take (length tag - length glyph) tag)"
  shows "replace_str tag glyph [] = strip_trailing_glyph tag"
proof -
  from assms(1) obtain a where a: "tag = a @ glyph" by (auto simp: endsWith_iff)
  with assms(2) have "glyph_free a" by simp
  then show ?thesis using a by (simp add: replace_glyph strip_chip)
qed

subsection \<open>The backing field\<close>

lemma add_empty: "addSkillTag [] p = Returned () p"
  by (simp add: addSkillTag_def)

lemma strip_newlines_id: "line_free s \<Longrightarrow> strip_newlines s = s"
  by (simp add: line_free_def strip_newlines_def list_all_iff)

lemma line_free_append: "line_free (a @ b) = (line_free a \<and> line_free b)"
  by (simp add: line_free_def)

lemma line_free_join:
  "line_free sep \<Longrightarrow> list_all line_free xs \<Longrightarrow> line_free (join_str sep xs)"
  by (induction sep xs rule: join_str.induct) (simp_all add: line_free_append line_free_def)

lemma line_free_strip: "line_free tag \<Longrightarrow> line_free (strip_trailing_glyph tag)"
  by (auto simp: strip_trailing_glyph_def line_free_def list_all_iff dest: in_set_takeD)

lemma line_free_glyph: "line_free glyph" and line_free_separator: "line_free '', ''"
  by (simp_all add: line_free_def glyph_def isLineBreak_def)

lemma update_in_sync:
  assumes "chips_well_formed p"
  shows "backing_field_in_sync (state_of (updateSkillsInput p))"
proof -
  from assms obtain v where v: "user_skills p = Some v"
    by (auto simp: chips_well_formed_def)
  from assms
  have same: "map (\<lambda>tag. replace_str tag glyph []) (skill_tags p) = map strip_trailing_glyph (skill_tags p)"
    by (auto simp: chips_well_formed_def list_all_iff well_formed_tag)
  from assms have "list_all line_free (map strip_trailing_glyph (skill_tags p))"
    by (auto simp: chips_well_formed_def list_all_iff line_free_strip)
  then have "line_free (join_str '', '' (map strip_trailing_glyph (skill_tags p)))"
    using line_free_separator by (simp add: line_free_join)
  then have "strip_newlines (join_str '', '' (map strip_trailing_glyph (skill_tags p)))
      = spec_recomputeBackingField (skill_tags p)"
    by (simp add: strip_newlines_id spec_recomputeBackingField_def)
  then have "updateSkillsInput p =
      Returned () (p\<lparr>user_skills := Some (spec_recomputeBackingField (skill_tags p))\<rparr>)"
    unfolding updateSkillsInput_def Let_def same using v by simp
  with assms show ?thesis
    by (simp add: backing_field_in_sync_def chips_well_formed_def)
qed

lemma add_in_sync:
  assumes "chips_well_formed p" "glyph_free skill" "line_free skill" "skill \<noteq> []"
  shows "backing_field_in_sync (state_of (addSkillTag skill p))"
proof -
  let ?q = "p\<lparr>skill_tags_container := True, skill_tags := skill_tags p @ [skill @ glyph]\<rparr>"
  let ?r = "p\<lparr>skill_tags := skill_tags p @ [skill @ glyph]\<rparr>"
  from assms have "chips_well_formed ?q" "chips_well_formed ?r"
    by (simp_all add: chips_well_formed_def endsWith_append line_free_append line_free_glyph)
  then have "backing_field_in_sync (state_of (updateSkillsInput ?q))"
     "backing_field_in_sync (state_of (updateSkillsInput ?r))"
    by (simp_all add: update_in_sync)
  with assms show ?thesis
    by (auto simp: addSkillTag_def createSkillTagsContainer_def chips_well_formed_def)
qed

lemma remove_in_sync:
  assumes "backing_field_in_sync p"
  shows "backing_field_in_sync (state_of (removeTag i p))"
proof (cases "i < length (skill_tags p)")
  case True
  let ?q = "p\<lparr>skill_tags := take i (skill_tags p) @ drop (Suc i) (skill_tags p)\<rparr>"
  from assms have "chips_well_formed ?q"
    by (auto simp: backing_field_in_sync_def chips_well_formed_def list_all_iff
          dest: in_set_takeD in_set_dropD)
  then show ?thesis using True by (simp add: removeTag_def update_in_sync)
next
  case False
  with assms show ?thesis by (simp add: removeTag_def)
qed

lemma handle_in_sync:
  assumes "backing_field_in_sync p" "tag_operation ev"
  shows "backing_field_in_sync (handle ev p)"
proof (cases ev)
  case (AddSkillTagCall skill)
  show ?thesis
  proof (cases "skill = []")
    case True
    with assms AddSkillTagCall show ?thesis by (simp add: add_empty)
  next
    case False
    from assms have "chips_well_formed p" by (simp add: backing_field_in_sync_def)
    with assms False AddSkillTagCall show ?thesis
      by (simp add: add_in_sync)
  qed
next
  case (RemoveClick i)
  with assms show ?thesis by (simp add: remove_in_sync)
qed (use assms in simp_all)

lemma loaded_in_sync: "backing_field_in_sync loaded_page"
  by code_simp

text \<open>
  Where the claim C1 holds: from a state in which the field equals the join of the chips'
  texts (the page as loaded is one), every sequence of \<open>addSkillTag\<close> calls with
  glyph-free skills that have no line break and of remove clicks leaves the field equal
  to the join of the chips' texts, each with its trailing glyph stripped.
\<close>

theorem backing_field_no_drift:
  "backing_field_in_sync p \<Longrightarrow> list_all tag_operation evs \<Longrightarrow> backing_field_in_sync (run evs p)"
proof (induction evs arbitrary: p)
  case Nil
  then show ?case by simp
next
  case (Cons ev evs)
  then show ?case by (simp add: handle_in_sync)
qed

theorem backing_field_no_drift_witness:
  "backing_field_in_sync loaded_page \<and>
   list_all tag_operation [AddSkillTagCall ''Python'', AddSkillTagCall ''C++'', RemoveClick 0] \<and>
   backing_field_in_sync
     (run [AddSkillTagCall ''Python'', AddSkillTagCall ''C++'', RemoveClick 0] loaded_page) \<and>
   user_skills (run [AddSkillTagCall ''Python'', AddSkillTagCall ''C++'', RemoveClick 0] loaded_page)
     = Some ''C++''"
proof -
  have a: "backing_field_in_sync loaded_page" by (rule loaded_in_sync)
  have b: "list_all tag_operation [AddSkillTagCall ''Python'', AddSkillTagCall ''C++'', RemoveClick 0]"
    by code_simp
  have c: "user_skills (run [AddSkillTagCall ''Python'', AddSkillTagCall ''C++'', RemoveClick 0] loaded_page)
     = Some ''C++''"
    by code_simp
  from a b c backing_field_no_drift [OF a b] show ?thesis by simp
qed

text \<open>
  Claim C1, at a skill that contains the remove control's text. \<open>updateSkillsInput\<close>
  removes the first occurrence of the glyph from a chip's text, not the trailing one:
  committing the skill \<open>a \<times>b\<close> on the page as loaded writes \<open>ab \<times>\<close> to the field, where
  the join of the chips' texts with the trailing glyph stripped is \<open>a \<times>b\<close>.
\<close>

theorem glyph_in_skill_drift:
  "user_skills (state_of (addSkillTag (''a'' @ glyph @ ''b'') loaded_page)) = Some (''ab'' @ glyph) \<and>
   spec_recomputeBackingField (skill_tags (state_of (addSkillTag (''a'' @ glyph @ ''b'') loaded_page)))
     = ''a'' @ glyph @ ''b''"
  by code_simp

text \<open>
  The key path writes the join and then clears it: the text box and the backing field are
  the same input, so after Enter or a comma the field is empty, whatever chips there are.
\<close>

theorem keydown_clears_field:
  "user_skills p = Some v \<Longrightarrow> key = ''Enter'' \<or> key = '','' \<Longrightarrow>
     user_skills (state_of (onKeydown key p)) = Some [] \<and>
     skill_tags (state_of (onKeydown key p)) =
       skill_tags p @ (if trim v = [] then [] else [trim v @ glyph])"
  by (auto simp: onKeydown_def addSkillTag_def createSkillTagsContainer_def updateSkillsInput_def
        Let_def)

theorem keydown_clears_field_witness:
  "user_skills (state_of (onKeydown ''Enter'' (loaded_page\<lparr>user_skills := Some ''Python''\<rparr>))) = Some [] \<and>
   skill_tags (state_of (onKeydown ''Enter'' (loaded_page\<lparr>user_skills := Some ''Python''\<rparr>)))
     = [''Python'' @ glyph]"
proof -
  have a: "user_skills (loaded_page\<lparr>user_skills := Some ''Python''\<rparr>) = Some ''Python''" by simp
  have b: "trim ''Python'' = ''Python''" by code_simp
  have c: "skill_tags (loaded_page\<lparr>user_skills := Some ''Python''\<rparr>) = []"
    by (simp add: loaded_page_def)
  from keydown_clears_field [OF a, of "''Enter''"] b c show ?thesis by simp
qed

text \<open>
  Claim C9. Committing the tag "Python" and then "Python" again, on the page as loaded,
  leaves two chips and the field value "Python, Python": duplicates are not prevented.
\<close>

theorem commit_python_twice:
  "(case addSkillTag ''Python'' loaded_page of
      Thrown e q \<Rightarrow> Thrown e q
    | Returned u q \<Rightarrow> addSkillTag ''Python'' q)
   = Returned ()
       \<lparr>user_skills = Some ''Python, Python'', skill_tags_container = True,
        skill_tags = [''Python'' @ glyph, ''Python'' @ glyph],
        suggestions_dropdowns = [], notifications = []\<rparr>"
  by (simp add: loaded_page_def addSkillTag_def createSkillTagsContainer_def
        updateSkillsInput_def glyph_def strip_newlines_def isLineBreak_def)

subsection \<open>Blank commits\<close>

lemma vocabulary_not_blank: "list_all (\<lambda>s. trim s \<noteq> []) suggestions"
  by code_simp

lemma blank_key:
  "trim v = [] \<Longrightarrow> user_skills p = Some v \<Longrightarrow> key = ''Enter'' \<or> key = '','' \<Longrightarrow>
     onKeydown key p = Returned True (p\<lparr>user_skills := Some []\<rparr>)"
  by (auto simp: onKeydown_def addSkillTag_def)

text \<open>
  Claim C8, as the code has it. On the key path (Enter or a comma) a text that is empty
  or white space only creates no chip and shows no error: the handler prevents the key's
  default action and leaves the page as it was but for the input, which it empties. The
  exported \<open>addSkillTag\<close> ignores the empty string, leaving the page unchanged. A
  suggestion click commits a vocabulary entry, and none of them is blank.
\<close>

theorem blank_commit_ignored:
  "(trim v = [] \<and> user_skills p = Some v \<and> (key = ''Enter'' \<or> key = '','')
      \<longrightarrow> onKeydown key p = Returned True (p\<lparr>user_skills := Some []\<rparr>)) \<and>
   addSkillTag [] p = Returned () p \<and>
   (\<forall>s \<in> set suggestions. trim s \<noteq> [])"
  using vocabulary_not_blank by (auto simp: blank_key add_empty list_all_iff)

theorem blank_commit_ignored_witness:
  "trim ''  '' = [] \<and>
   onKeydown '','' (loaded_page\<lparr>user_skills := Some ''  ''\<rparr>) = Returned True loaded_page \<and>
   addSkillTag [] loaded_page = Returned () loaded_page \<and>
   trim ''Python'' \<noteq> []"
proof -
  have a: "trim ''  '' = []" by code_simp
  have b: "user_skills (loaded_page\<lparr>user_skills := Some ''  ''\<rparr>) = Some ''  ''" by simp
  have c: "''Python'' \<in> set suggestions" by (simp add: suggestions_def)
  have d: "loaded_page\<lparr>user_skills := Some ''  '', user_skills := Some []\<rparr> = loaded_page"
    by (simp add: loaded_page_def)
  from blank_commit_ignored [of "''  ''" "loaded_page\<lparr>user_skills := Some ''  ''\<rparr>" "'',''"] a b
  have "onKeydown '','' (loaded_page\<lparr>user_skills := Some ''  ''\<rparr>) = Returned True loaded_page"
    using d by simp
  moreover from blank_commit_ignored [of "''  ''" loaded_page "'',''"] c
  have "addSkillTag [] loaded_page = Returned () loaded_page" "trim ''Python'' \<noteq> []"
    by blast+
  ultimately show ?thesis using a by simp
qed

text \<open>
  The claim C8 fails for the exported operation and for the field: \<open>addSkillTag\<close> given a
  single space creates a chip, and the key path on a text of one space changes the field
  from that text to the empty string.
\<close>

theorem blank_commit_counterexample:
  "trim '' '' = [] \<and>
   addSkillTag '' '' loaded_page =
     Returned ()
       \<lparr>user_skills = Some '' '', skill_tags_container = True, skill_tags = ['' '' @ glyph],
        suggestions_dropdowns = [], notifications = []\<rparr> \<and>
   user_skills (state_of (onKeydown ''Enter'' (loaded_page\<lparr>user_skills := Some '' ''\<rparr>)))
     \<noteq> user_skills (loaded_page\<lparr>user_skills := Some '' ''\<rparr>)"
  by code_simp

subsection \<open>Suggestions\<close>

lemma filtered_subset: "set (filtered t) \<subseteq> set suggestions"
  by (simp add: filtered_def)

lemma filtered_includes:
  "s \<in> set (filtered t) \<Longrightarrow> \<exists>a b. toLowerCase s = a @ toLowerCase t @ b"
  by (simp add: filtered_def includes_str_iff)

lemma filtered_not_entered:
  "s \<in> set (filtered t) \<Longrightarrow> seg \<in> set (split_comma t) \<Longrightarrow>
     toLowerCase (trim seg) \<noteq> toLowerCase s"
  by (auto simp: filtered_def list_ex_iff)

lemma hide_dropdowns:
  "suggestions_dropdowns (hideSuggestionsDropdown p) = tl (suggestions_dropdowns p)"
  by (simp add: hideSuggestionsDropdown_def split: list.splits)

lemma show_dropdowns:
  "suggestions_dropdowns (state_of (showSuggestionsDropdown items arg p)) =
     (case arg of
        Text s \<Rightarrow> tl (suggestions_dropdowns p)
      | InputElement \<Rightarrow> tl (suggestions_dropdowns p) @ [take 5 items])"
  by (simp add: showSuggestionsDropdown_def hide_dropdowns Let_def split: input_arg.splits)

lemma showSkill_dropdowns:
  "suggestions_dropdowns (state_of (showSkillSuggestions t p)) = tl (suggestions_dropdowns p)"
  by (simp add: showSkillSuggestions_def show_dropdowns hide_dropdowns)

lemma showSkill_hidden:
  "length t \<le> 1 \<or> filtered t = [] \<Longrightarrow>
     showSkillSuggestions t p = Returned () (hideSuggestionsDropdown p)"
  by (auto simp: showSkillSuggestions_def)

lemma hide_none_left:
  "length (suggestions_dropdowns p) \<le> 1 \<Longrightarrow> suggestions_dropdowns (hideSuggestionsDropdown p) = []"
  by (cases "suggestions_dropdowns p") (simp_all add: hide_dropdowns)

lemma in_set_tl: "x \<in> set (tl xs) \<Longrightarrow> x \<in> set xs"
  by (cases xs) simp_all

lemma show_at_most_five:
  assumes "d \<in> set (suggestions_dropdowns (state_of (showSuggestionsDropdown items arg p)))"
  shows "d \<in> set (suggestions_dropdowns p) \<or> length d \<le> 5"
proof (cases arg)
  case (Text s)
  with assms have "d \<in> set (tl (suggestions_dropdowns p))" by (simp add: show_dropdowns)
  then show ?thesis by (auto dest: in_set_tl)
next
  case InputElement
  with assms have "d \<in> set (tl (suggestions_dropdowns p)) \<or> d = take 5 items"
    by (auto simp: show_dropdowns)
  then show ?thesis by (auto dest: in_set_tl)
qed

text \<open>
  Claim C2. For every input text \<open>t\<close>: the computed list holds vocabulary entries only;
  the lower-case form of each contains the lower-case form of \<open>t\<close>; none equals,
  case-insensitively, the trimmed text of a comma-separated segment of \<open>t\<close>; a dropdown
  that \<open>showSuggestionsDropdown\<close> puts into the document (whatever it is given as the
  input) has at most five items; and when \<open>t\<close> has at most one code unit or the list is
  empty, \<open>showSkillSuggestions\<close> only hides: it returns the page with its first dropdown
  removed, which leaves none where there was at most one.
\<close>

theorem suggestions_sound:
  "set (filtered t) \<subseteq> set suggestions \<and>
   (\<forall>s \<in> set (filtered t). \<exists>a b. toLowerCase s = a @ toLowerCase t @ b) \<and>
   (\<forall>s \<in> set (filtered t). \<forall>seg \<in> set (split_comma t). toLowerCase (trim seg) \<noteq> toLowerCase s) \<and>
   (\<forall>d \<in> set (suggestions_dropdowns (state_of (showSuggestionsDropdown (filtered t) arg p))).
      d \<in> set (suggestions_dropdowns p) \<or> length d \<le> 5) \<and>
   (length t \<le> 1 \<or> filtered t = [] \<longrightarrow>
      showSkillSuggestions t p = Returned () (hideSuggestionsDropdown p) \<and>
      (length (suggestions_dropdowns p) \<le> 1 \<longrightarrow>
         suggestions_dropdowns (hideSuggestionsDropdown p) = []))"
  using filtered_subset [of t] filtered_includes [of _ t] filtered_not_entered [of _ t]
    show_at_most_five [of _ "filtered t" arg p] showSkill_hidden [of t p] hide_none_left [of p]
  by blast

theorem suggestions_sound_witness:
  "filtered ''py'' = [''Python''] \<and>
   set (filtered ''py'') \<subseteq> set suggestions \<and>
   (\<exists>a b. toLowerCase ''Python'' = a @ toLowerCase ''py'' @ b) \<and>
   toLowerCase (trim ''py'') \<noteq> toLowerCase ''Python'' \<and>
   length (take 5 (filtered ''py'')) \<le> 5 \<and>
   showSkillSuggestions ''p'' loaded_page = Returned () (hideSuggestionsDropdown loaded_page) \<and>
   suggestions_dropdowns (hideSuggestionsDropdown loaded_page) = []"
proof -
  have f: "filtered ''py'' = [''Python'']" by code_simp
  have seg: "''py'' \<in> set (split_comma ''py'')" by simp
  have shown: "take 5 (filtered ''py'')
      \<in> set (suggestions_dropdowns (state_of (showSuggestionsDropdown (filtered ''py'') InputElement loaded_page)))"
    by (simp add: show_dropdowns)
  have none: "take 5 (filtered ''py'') \<notin> set (suggestions_dropdowns loaded_page)"
    by (simp add: loaded_page_def)
  have short: "length ''p'' \<le> 1" "length (suggestions_dropdowns loaded_page) \<le> 1"
    by (simp_all add: loaded_page_def)
  note py = suggestions_sound [of "''py''" InputElement loaded_page]
  note p = suggestions_sound [of "''p''" InputElement loaded_page]
  from py f have "\<exists>a b. toLowerCase ''Python'' = a @ toLowerCase ''py'' @ b" by simp
  moreover from py f seg have "toLowerCase (trim ''py'') \<noteq> toLowerCase ''Python''" by auto
  moreover from py shown none have "length (take 5 (filtered ''py'')) \<le> 5" by blast
  moreover from p short
  have "showSkillSuggestions ''p'' loaded_page = Returned () (hideSuggestionsDropdown loaded_page)"
    "suggestions_dropdowns (hideSuggestionsDropdown loaded_page) = []"
    by blast+
  moreover from py have "set (filtered ''py'') \<subseteq> set suggestions" by blast
  ultimately show ?thesis using f by blast
qed

text \<open>
  Claim C7, as the code has it. For the input "java" the computed list is "JavaScript"
  alone: "Java" matches, but equals the typed segment case-insensitively and is filtered
  out. The list follows the vocabulary, where "JavaScript" comes before "Java", as the
  input "jav" shows; the match is case-insensitive.
\<close>

theorem filtered_java:
  "filtered ''java'' = [''JavaScript''] \<and> filtered ''jav'' = [''JavaScript'', ''Java'']"
  by code_simp

text \<open>The list the claim C7 gives for "java" is not the one computed.\<close>

theorem filtered_java_counterexample:
  "filtered ''java'' \<noteq> [''Java'', ''JavaScript'']"
  by code_simp

subsection \<open>The dropdown\<close>

lemma update_dropdowns:
  "suggestions_dropdowns (state_of (updateSkillsInput p)) = suggestions_dropdowns p"
  by (simp add: updateSkillsInput_def Let_def split: option.splits)

lemma add_dropdowns:
  "suggestions_dropdowns (state_of (addSkillTag s p)) = suggestions_dropdowns p"
  by (simp add: addSkillTag_def createSkillTagsContainer_def update_dropdowns split: option.splits)

lemma remove_dropdowns:
  "suggestions_dropdowns (state_of (removeTag i p)) = suggestions_dropdowns p"
  by (simp add: removeTag_def update_dropdowns)

lemma keydown_dropdowns:
  "suggestions_dropdowns (state_of (onKeydown key p)) = suggestions_dropdowns p"
proof (cases "addSkillTag (trim (the (user_skills p))) p")
  case (Returned u q)
  with add_dropdowns [of "trim (the (user_skills p))" p]
  show ?thesis by (auto simp: onKeydown_def split: option.splits)
next
  case (Thrown e q)
  with add_dropdowns [of "trim (the (user_skills p))" p]
  show ?thesis by (auto simp: onKeydown_def split: option.splits)
qed

lemma input_dropdowns:
  "length (suggestions_dropdowns (state_of (onInput t p))) \<le> length (suggestions_dropdowns p)"
  by (simp add: onInput_def showSkill_dropdowns split: option.splits)

lemma handle_dropdowns:
  "length (suggestions_dropdowns (handle ev p)) \<le> length (suggestions_dropdowns p)"
  by (cases ev) (simp_all add: input_dropdowns keydown_dropdowns remove_dropdowns add_dropdowns)

lemma run_dropdowns:
  "length (suggestions_dropdowns (run evs p)) \<le> length (suggestions_dropdowns p)"
proof (induction evs arbitrary: p)
  case Nil
  show ?case by simp
next
  case (Cons ev evs)
  have "length (suggestions_dropdowns (run evs (handle ev p)))
          \<le> length (suggestions_dropdowns (handle ev p))"
    by (rule Cons.IH)
  also have "\<dots> \<le> length (suggestions_dropdowns p)" by (rule handle_dropdowns)
  finally show ?case by simp
qed

lemma suggestionClick_dropdowns:
  "suggestions_dropdowns (state_of (suggestionClick skill arg p)) =
     (case addSkillTag skill p of
        Thrown e q \<Rightarrow> suggestions_dropdowns p
      | Returned u q \<Rightarrow> tl (suggestions_dropdowns p))"
proof (cases "addSkillTag skill p")
  case (Returned u q)
  with add_dropdowns [of skill p] show ?thesis
    by (cases arg) (simp_all add: suggestionClick_def hide_dropdowns)
next
  case (Thrown e q)
  with add_dropdowns [of skill p] show ?thesis by (simp add: suggestionClick_def)
qed

text \<open>
  Claim C10. On a page with at most one suggestions dropdown: hiding leaves none; showing
  removes the existing one before it appends the new one (or throws, on a string, before
  appending), so at most one is left; a click on a suggestion leaves at most one; and
  after every sequence of the widget's events there is at most one.
\<close>

theorem at_most_one_dropdown:
  assumes "length (suggestions_dropdowns p) \<le> 1"
  shows "suggestions_dropdowns (hideSuggestionsDropdown p) = [] \<and>
         length (suggestions_dropdowns (state_of (showSuggestionsDropdown items arg p))) \<le> 1 \<and>
         length (suggestions_dropdowns (state_of (suggestionClick skill arg p))) \<le> 1 \<and>
         length (suggestions_dropdowns (run evs p)) \<le> 1"
proof -
  from assms have "suggestions_dropdowns (hideSuggestionsDropdown p) = []"
    by (rule hide_none_left)
  moreover from assms
  have "length (suggestions_dropdowns (state_of (showSuggestionsDropdown items arg p))) \<le> 1"
    by (cases "suggestions_dropdowns p"; cases arg) (simp_all add: show_dropdowns)
  moreover from assms
  have "length (suggestions_dropdowns (state_of (suggestionClick skill arg p))) \<le> 1"
    by (cases "addSkillTag skill p") (simp_all add: suggestionClick_dropdowns)
  moreover from assms run_dropdowns [of evs p]
  have "length (suggestions_dropdowns (run evs p)) \<le> 1"
    by simp
  ultimately show ?thesis by blast
qed

theorem at_most_one_dropdown_witness:
  "length (suggestions_dropdowns (loaded_page\<lparr>suggestions_dropdowns := [[''Python'']]\<rparr>)) \<le> 1 \<and>
   suggestions_dropdowns
     (hideSuggestionsDropdown (loaded_page\<lparr>suggestions_dropdowns := [[''Python'']]\<rparr>)) = [] \<and>
   suggestions_dropdowns
     (state_of (showSuggestionsDropdown [''Java''] InputElement
        (loaded_page\<lparr>suggestions_dropdowns := [[''Python'']]\<rparr>))) = [[''Java'']] \<and>
   length (suggestions_dropdowns
     (run [InputEvent ''py'', KeydownEvent ''Enter'']
        (loaded_page\<lparr>suggestions_dropdowns := [[''Python'']]\<rparr>))) \<le> 1"
proof -
  have a: "length (suggestions_dropdowns (loaded_page\<lparr>suggestions_dropdowns := [[''Python'']]\<rparr>)) \<le> 1"
    by simp
  have b: "suggestions_dropdowns
     (state_of (showSuggestionsDropdown [''Java''] InputElement
        (loaded_page\<lparr>suggestions_dropdowns := [[''Python'']]\<rparr>))) = [[''Java'']]"
    by (simp add: show_dropdowns)
  from at_most_one_dropdown [OF a, of "[''Java'']" InputElement "''Java''"
      "[InputEvent ''py'', KeydownEvent ''Enter'']"] a b
  show ?thesis by simp
qed

subsection \<open>The required marker\<close>

lemma first_index_Some:
  "first_index P xs = Some i \<Longrightarrow> i < length xs \<and> P (xs ! i)"
proof (induction xs arbitrary: i)
  case Nil
  then show ?case by simp
next
  case (Cons x xs)
  then show ?case by (auto split: if_splits)
qed

lemma first_index_update:
  "(i < length xs \<Longrightarrow> P x = P (xs ! i)) \<Longrightarrow> first_index P (xs[i := x]) = first_index P xs"
proof (induction xs arbitrary: i)
  case Nil
  then show ?case by simp
next
  case (Cons y ys)
  then show ?case by (cases i) auto
qed

lemma cvTextarea_set_required: "cvTextarea (set_required i b f) = cvTextarea f"
  by (simp add: cvTextarea_def set_required_def first_index_update)

lemma cvFile_set_required: "cvFile (set_required i b f) = cvFile f"
  by (simp add: cvFile_def set_required_def first_index_update)

lemma el_files_set_required:
  "el_files (form_elements (set_required i b f) ! j) = el_files (form_elements f ! j)"
  by (cases "i < length (form_elements f)"; cases "i = j")
    (simp_all add: set_required_def list_update_beyond not_less)

lemma el_value_set_required:
  "el_value (form_elements (set_required i b f) ! j) = el_value (form_elements f ! j)"
  by (cases "i < length (form_elements f)"; cases "i = j")
    (simp_all add: set_required_def list_update_beyond not_less)

lemma hasFile_set_required: "hasFile (set_required i b f) = hasFile f"
  by (simp add: hasFile_def cvFile_set_required el_files_set_required cong: option.case_cong)

lemma hasText_set_required: "hasText (set_required i b f) j = hasText f j"
  by (simp add: hasText_def el_value_set_required)

lemma set_required_twice: "set_required i b (set_required i c f) = set_required i b f"
  by (cases "i < length (form_elements f)")
    (simp_all add: set_required_def list_update_beyond not_less)

lemma el_required_set_required:
  "i < length (form_elements f) \<Longrightarrow> el_required (form_elements (set_required i b f) ! i) = b"
  by (simp add: set_required_def)

lemma syncRequired_eq:
  "cvTextarea f = Some i \<Longrightarrow>
     syncRequired f = Returned () (set_required i (\<not> hasText f i \<and> \<not> hasFile f) f)"
  by (simp add: syncRequired_def)

lemma hasFile_iff:
  "hasFile f \<longleftrightarrow> (\<exists>j fs. cvFile f = Some j \<and> el_files (form_elements f ! j) = Some fs \<and> fs \<noteq> [])"
  by (auto simp: hasFile_def split: option.splits)

lemma syncRequired_hasFile:
  assumes "cvTextarea f = Some i"
  shows "syncRequired f =
           Returned () (set_required i (trim (el_value (form_elements f ! i)) = [] \<and> \<not> hasFile f) f) \<and>
         el_required (form_elements (state_of (syncRequired f)) ! i) =
           (trim (el_value (form_elements f ! i)) = [] \<and> \<not> hasFile f) \<and>
         syncRequired (state_of (syncRequired f)) = syncRequired f"
proof -
  let ?b = "trim (el_value (form_elements f ! i)) = [] \<and> \<not> hasFile f"
  from assms have len: "i < length (form_elements f)"
    by (auto simp: cvTextarea_def dest: first_index_Some)
  have eq: "syncRequired f = Returned () (set_required i ?b f)"
    using assms by (simp add: syncRequired_eq hasText_def)
  have "cvTextarea (set_required i ?b f) = Some i"
    using assms by (simp add: cvTextarea_set_required)
  then have "syncRequired (set_required i ?b f) =
      Returned () (set_required i (\<not> hasText (set_required i ?b f) i \<and> \<not> hasFile (set_required i ?b f))
         (set_required i ?b f))"
    by (rule syncRequired_eq)
  also have "\<dots> = Returned () (set_required i ?b f)"
    by (simp add: el_value_set_required hasFile_set_required set_required_twice hasText_def)
  finally have idem: "syncRequired (set_required i ?b f) = Returned () (set_required i ?b f)" .
  from eq idem len show ?thesis by (simp add: el_required_set_required)
qed

text \<open>
  Claim C5. On a form that has the \<^verbatim>\<open>cv_text\<close> textarea, \<open>syncRequired\<close> returns,
  changing nothing but the textarea's required attribute; after it the textarea is
  required exactly when its trimmed text is empty and no file is selected, that is, the
  form has no \<^verbatim>\<open>#cv_file\<close> whose file list is non-empty; and running it again on the
  state it left gives the same outcome.
\<close>

theorem syncRequired_marker:
  assumes "cvTextarea f = Some i"
  shows "syncRequired f =
           Returned ()
             (set_required i
                (trim (el_value (form_elements f ! i)) = [] \<and>
                 \<not> (\<exists>j fs. cvFile f = Some j \<and> el_files (form_elements f ! j) = Some fs \<and> fs \<noteq> []))
                f) \<and>
         el_required (form_elements (state_of (syncRequired f)) ! i) =
           (trim (el_value (form_elements f ! i)) = [] \<and>
            \<not> (\<exists>j fs. cvFile f = Some j \<and> el_files (form_elements f ! j) = Some fs \<and> fs \<noteq> [])) \<and>
         syncRequired (state_of (syncRequired f)) = syncRequired f"
  using syncRequired_hasFile [OF assms] unfolding hasFile_iff .

theorem syncRequired_marker_witness:
  "syncRequired (analyze_form ''  '' False []) = Returned () (analyze_form ''  '' True []) \<and>
   syncRequired (analyze_form ''  '' True []) = Returned () (analyze_form ''  '' True []) \<and>
   syncRequired (analyze_form ''x'' True []) = Returned () (analyze_form ''x'' False []) \<and>
   syncRequired (analyze_form [] True [\<lparr>file_name = ''resume.pdf'', file_size = 1024\<rparr>])
     = Returned () (analyze_form [] False [\<lparr>file_name = ''resume.pdf'', file_size = 1024\<rparr>]) \<and>
   syncRequired (analyze_form [] False [\<lparr>file_name = ''resume.pdf'', file_size = 1024\<rparr>])
     = Returned () (analyze_form [] False [\<lparr>file_name = ''resume.pdf'', file_size = 1024\<rparr>]) \<and>
   syncRequired \<lparr>form_action = ''/analyze'', form_elements = [cv_text_control [] False],
       form_errors = [], form_tips = 0\<rparr>
     = Returned () \<lparr>form_action = ''/analyze'', form_elements = [cv_text_control [] True],
       form_errors = [], form_tips = 0\<rparr>"
proof -
  have ta: "\<And>v r fs. cvTextarea (analyze_form v r fs) = Some 0"
    by (simp add: cvTextarea_def analyze_form_def cv_text_control_def)
  have cf: "\<And>v r fs. cvFile (analyze_form v r fs) = Some 1"
    by (simp add: cvFile_def analyze_form_def cv_text_control_def cv_file_control_def)
  have ef: "\<And>v r fs. el_files (form_elements (analyze_form v r fs) ! Suc 0) = Some fs"
    by (simp add: analyze_form_def cv_file_control_def)
  have ev: "\<And>v r fs. el_value (form_elements (analyze_form v r fs) ! 0) = v"
    by (simp add: analyze_form_def cv_text_control_def)
  have sel: "\<And>v r fs. (\<exists>j fs'. cvFile (analyze_form v r fs) = Some j \<and>
      el_files (form_elements (analyze_form v r fs) ! j) = Some fs' \<and> fs' \<noteq> []) = (fs \<noteq> [])"
    by (auto simp: cf ef)
  have sr: "\<And>v r fs b. set_required 0 b (analyze_form v r fs) = analyze_form v b fs"
    by (simp add: set_required_def analyze_form_def cv_text_control_def)
  have tr: "trim ''  '' = []" "trim ''x'' \<noteq> []" "trim [] = []" by code_simp+
  note m = syncRequired_marker [OF ta, unfolded sel ev sr]
  have blank: "syncRequired (analyze_form ''  '' False []) = Returned () (analyze_form ''  '' True [])"
    using m [of "''  ''" False "[]"] tr by simp
  have again: "syncRequired (analyze_form ''  '' True []) = Returned () (analyze_form ''  '' True [])"
    using m [of "''  ''" False "[]"] blank tr by simp
  have typed: "syncRequired (analyze_form ''x'' True []) = Returned () (analyze_form ''x'' False [])"
    using m [of "''x''" True "[]"] tr by simp
  have chosen: "syncRequired (analyze_form [] True [\<lparr>file_name = ''resume.pdf'', file_size = 1024\<rparr>])
     = Returned () (analyze_form [] False [\<lparr>file_name = ''resume.pdf'', file_size = 1024\<rparr>])"
    using m [of "[]" True "[\<lparr>file_name = ''resume.pdf'', file_size = 1024\<rparr>]"] tr by simp
  have kept: "syncRequired (analyze_form [] False [\<lparr>file_name = ''resume.pdf'', file_size = 1024\<rparr>])
     = Returned () (analyze_form [] False [\<lparr>file_name = ''resume.pdf'', file_size = 1024\<rparr>])"
    using m [of "[]" True "[\<lparr>file_name = ''resume.pdf'', file_size = 1024\<rparr>]"] chosen tr by simp
  let ?g = "\<lambda>r. \<lparr>form_action = ''/analyze'', form_elements = [cv_text_control [] r],
       form_errors = [], form_tips = 0\<rparr>"
  have tg: "cvTextarea (?g False) = Some 0" by (simp add: cvTextarea_def cv_text_control_def)
  have ng: "cvFile (?g False) = None" by (simp add: cvFile_def cv_text_control_def)
  have sg: "set_required 0 True (?g False) = ?g True"
    by (simp add: set_required_def cv_text_control_def)
  have vg: "el_value (form_elements (?g False) ! 0) = []" by (simp add: cv_text_control_def)
  from syncRequired_marker [OF tg] have "syncRequired (?g False) = Returned () (?g True)"
    unfolding ng vg by (simp add: tr sg)
  with blank again typed chosen kept show ?thesis by simp
qed

subsection \<open>The file validator\<close>

lemma endsWith_lower_iff:
  "endsWith (toLowerCase name) ext \<longleftrightarrow> (\<exists>pre e. name = pre @ e \<and> toLowerCase e = ext)"
proof
  assume "endsWith (toLowerCase name) ext"
  then obtain a where a: "toLowerCase name = a @ ext" by (auto simp: endsWith_iff)
  have "name = take (length a) name @ drop (length a) name" by simp
  moreover from a have "toLowerCase (drop (length a) name) = ext"
    by (simp add: toLowerCase_def drop_map [symmetric])
  ultimately show "\<exists>pre e. name = pre @ e \<and> toLowerCase e = ext" by blast
next
  assume "\<exists>pre e. name = pre @ e \<and> toLowerCase e = ext"
  then show "endsWith (toLowerCase name) ext"
    by (auto simp: toLowerCase_append endsWith_append)
qed

lemma file_accepted:
  assumes "upload_files u = file # rest"
    and "endsWith (toLowerCase (file_name file)) ''.pdf'' \<or>
         endsWith (toLowerCase (file_name file)) ''.docx''"
    and "file_size file \<le> 8 * 1024 * 1024"
  shows "upload_files (onFileChange u) = file # rest \<and>
         upload_notifications (onFileChange u) =
           upload_notifications u @ [(''File selected: '' @ file_name file, ''success'')] \<and>
         (if cv_file_badge u \<noteq> None \<and> cv_file_name u \<noteq> None
          then cv_file_name (onFileChange u) = Some (file_name file) \<and>
               cv_file_badge (onFileChange u) = Some ''inline-flex''
          else cv_file_name (onFileChange u) = cv_file_name u \<and>
               cv_file_badge (onFileChange u) = cv_file_badge u)"
  using assms
  by (auto simp: onFileChange_def showNotification_def Let_def split: option.splits bool.splits)

lemma file_rejected:
  assumes "upload_files u = file # rest"
    and "\<not> ((endsWith (toLowerCase (file_name file)) ''.pdf'' \<or>
             endsWith (toLowerCase (file_name file)) ''.docx'') \<and>
            file_size file \<le> 8 * 1024 * 1024)"
  shows "upload_files (onFileChange u) = [] \<and>
         (\<exists>msg. upload_notifications (onFileChange u) = upload_notifications u @ [(msg, ''error'')]) \<and>
         cv_file_badge (onFileChange u) = cv_file_badge u \<and>
         cv_file_name (onFileChange u) = cv_file_name u \<and>
         fab_open (onFileChange u) = fab_open u"
  using assms
  by (auto simp: onFileChange_def showNotification_def Let_def)

text \<open>
  Claim C3. When the user has picked a file, the validator accepts it if and only if its
  name ends in \<open>.pdf\<close> or \<open>.docx\<close>, in any mix of cases, and its size is at most
  \<open>8 * 1024 * 1024\<close> bytes. An accepted file stays selected, a success banner naming it
  is shown, and the filename badge (where the page has the badge and its name element)
  shows the name. Otherwise the selection is emptied, one error banner is shown, and the
  badge and the menu are as they were.
\<close>

theorem file_validator:
  assumes "upload_files u = file # rest"
  shows
    "if (\<exists>pre e. file_name file = pre @ e \<and> (toLowerCase e = ''.pdf'' \<or> toLowerCase e = ''.docx''))
        \<and> file_size file \<le> 8 * 1024 * 1024
     then upload_files (onFileChange u) = file # rest \<and>
          upload_notifications (onFileChange u) =
            upload_notifications u @ [(''File selected: '' @ file_name file, ''success'')] \<and>
          (if cv_file_badge u \<noteq> None \<and> cv_file_name u \<noteq> None
           then cv_file_name (onFileChange u) = Some (file_name file) \<and>
                cv_file_badge (onFileChange u) = Some ''inline-flex''
           else cv_file_name (onFileChange u) = cv_file_name u \<and>
                cv_file_badge (onFileChange u) = cv_file_badge u)
     else upload_files (onFileChange u) = [] \<and>
          (\<exists>msg. upload_notifications (onFileChange u) = upload_notifications u @ [(msg, ''error'')]) \<and>
          cv_file_badge (onFileChange u) = cv_file_badge u \<and>
          cv_file_name (onFileChange u) = cv_file_name u \<and>
          fab_open (onFileChange u) = fab_open u"
proof -
  let ?name = "\<exists>pre e. file_name file = pre @ e \<and> (toLowerCase e = ''.pdf'' \<or> toLowerCase e = ''.docx'')"
  let ?code = "endsWith (toLowerCase (file_name file)) ''.pdf'' \<or>
               endsWith (toLowerCase (file_name file)) ''.docx''"
  have eq: "?name = ?code" unfolding endsWith_lower_iff by blast
  show ?thesis
  proof (cases "?code \<and> file_size file \<le> 8 * 1024 * 1024")
    case True
    then have "?code" and "file_size file \<le> 8 * 1024 * 1024" by blast+
    from file_accepted [OF assms this] True show ?thesis unfolding eq by simp
  next
    case False
    from file_rejected [OF assms False] False show ?thesis unfolding eq by simp
  qed
qed

theorem file_validator_witness:
  "upload_files (onFileChange (picked ''resume.PDF'' 1024)) = upload_files (picked ''resume.PDF'' 1024) \<and>
   upload_notifications (onFileChange (picked ''resume.PDF'' 1024))
     = [(''File selected: resume.PDF'', ''success'')] \<and>
   cv_file_name (onFileChange (picked ''resume.PDF'' 1024)) = Some ''resume.PDF'' \<and>
   cv_file_badge (onFileChange (picked ''resume.PDF'' 1024)) = Some ''inline-flex'' \<and>
   upload_files (onFileChange (picked ''resume.exe'' 1024)) = [] \<and>
   cv_file_badge (onFileChange (picked ''resume.exe'' 1024)) = Some ''none'' \<and>
   upload_files (onFileChange (picked ''resume.pdf'' (9 * 1024 * 1024))) = [] \<and>
   upload_notifications (onFileChange (picked ''resume.pdf'' (9 * 1024 * 1024)))
     = [(''File is too large (max 8MB).'', ''error'')]"
proof -
  have sel: "\<And>n sz. upload_files (picked n sz) = \<lparr>file_name = n, file_size = sz\<rparr> # []"
    by (simp add: picked_def)
  have lower: "toLowerCase ''.PDF'' = ''.pdf''" by code_simp
  have "file_name \<lparr>file_name = ''resume.PDF'', file_size = 1024\<rparr> = ''resume'' @ ''.PDF''"
    by simp
  with lower
  have ok: "(\<exists>pre e. file_name \<lparr>file_name = ''resume.PDF'', file_size = 1024\<rparr> = pre @ e \<and>
      (toLowerCase e = ''.pdf'' \<or> toLowerCase e = ''.docx'')) \<and>
      file_size \<lparr>file_name = ''resume.PDF'', file_size = 1024\<rparr> \<le> 8 * 1024 * 1024"
    by (intro conjI exI [of _ "''resume''"] exI [of _ "''.PDF''"]) simp_all
  have badge: "cv_file_badge (picked ''resume.PDF'' 1024) \<noteq> None \<and>
      cv_file_name (picked ''resume.PDF'' 1024) \<noteq> None"
    and empty: "upload_notifications (picked ''resume.PDF'' 1024) = []"
    by (simp_all add: picked_def)
  from file_validator [OF sel, of "''resume.PDF''" 1024]
  have a: "upload_files (onFileChange (picked ''resume.PDF'' 1024)) =
        \<lparr>file_name = ''resume.PDF'', file_size = 1024\<rparr> # [] \<and>
      upload_notifications (onFileChange (picked ''resume.PDF'' 1024)) =
        upload_notifications (picked ''resume.PDF'' 1024) @
          [(''File selected: '' @ file_name \<lparr>file_name = ''resume.PDF'', file_size = 1024\<rparr>, ''success'')] \<and>
      (if cv_file_badge (picked ''resume.PDF'' 1024) \<noteq> None \<and> cv_file_name (picked ''resume.PDF'' 1024) \<noteq> None
       then cv_file_name (onFileChange (picked ''resume.PDF'' 1024)) =
              Some (file_name \<lparr>file_name = ''resume.PDF'', file_size = 1024\<rparr>) \<and>
            cv_file_badge (onFileChange (picked ''resume.PDF'' 1024)) = Some ''inline-flex''
       else cv_file_name (onFileChange (picked ''resume.PDF'' 1024)) = cv_file_name (picked ''resume.PDF'' 1024) \<and>
            cv_file_badge (onFileChange (picked ''resume.PDF'' 1024)) = cv_file_badge (picked ''resume.PDF'' 1024))"
    unfolding if_P [OF ok] .
  have exe: "\<not> endsWith (toLowerCase ''resume.exe'') ''.pdf''"
    "\<not> endsWith (toLowerCase ''resume.exe'') ''.docx''"
    "endsWith (toLowerCase ''resume.pdf'') ''.pdf''"
    by code_simp+
  have c: "upload_files (onFileChange (picked ''resume.exe'' 1024)) = [] \<and>
      cv_file_badge (onFileChange (picked ''resume.exe'' 1024)) = Some ''none'' \<and>
      upload_files (onFileChange (picked ''resume.pdf'' (9 * 1024 * 1024))) = [] \<and>
      upload_notifications (onFileChange (picked ''resume.pdf'' (9 * 1024 * 1024)))
        = [(''File is too large (max 8MB).'', ''error'')]"
    by (simp add: onFileChange_def picked_def showNotification_def exe)
  from a badge empty c show ?thesis by (simp add: sel)
qed

subsection \<open>Submitting a form\<close>

lemma nth_update_same:
  "h (g (xs ! i)) = h (xs ! i) \<Longrightarrow> h (xs[i := g (xs ! i)] ! j) = h (xs ! j)"
  by (cases "i < length xs"; cases "i = j") (simp_all add: list_update_beyond not_less)

lemma nth_update_other: "i \<noteq> j \<Longrightarrow> xs[j := x] ! i = xs ! i"
  by simp

text \<open>What the two error operations keep.\<close>

lemma clear_elements:
  "form_elements (clearFieldError j f) = (form_elements f)[j := (form_elements f ! j)\<lparr>el_borderColor := []\<rparr>]"
  by (simp add: clearFieldError_def)

lemma show_elements:
  "form_elements (showFieldError j m f) = (form_elements f)[j := (form_elements f ! j)\<lparr>el_borderColor := ''#e74c3c''\<rparr>]"
  by (cases "j < length (form_elements f)")
    (simp_all add: showFieldError_def clearFieldError_def Let_def list_update_beyond not_less)

lemma clear_action: "form_action (clearFieldError j f) = form_action f"
  by (simp add: clearFieldError_def)

lemma show_action: "form_action (showFieldError j m f) = form_action f"
  by (simp add: showFieldError_def clearFieldError_def Let_def)

lemma clear_value:
  "el_value (form_elements (clearFieldError j f) ! i) = el_value (form_elements f ! i)"
  by (simp add: clear_elements nth_update_same)

lemma show_value:
  "el_value (form_elements (showFieldError j m f) ! i) = el_value (form_elements f ! i)"
  by (simp add: show_elements nth_update_same)

lemma clear_parent:
  "el_parent (form_elements (clearFieldError j f) ! i) = el_parent (form_elements f ! i)"
  by (simp add: clear_elements nth_update_same)

lemma show_parent:
  "el_parent (form_elements (showFieldError j m f) ! i) = el_parent (form_elements f ! i)"
  by (simp add: show_elements nth_update_same)

lemma clear_files:
  "el_files (form_elements (clearFieldError j f) ! i) = el_files (form_elements f ! i)"
  by (simp add: clear_elements nth_update_same)

lemma show_files:
  "el_files (form_elements (showFieldError j m f) ! i) = el_files (form_elements f ! i)"
  by (simp add: show_elements nth_update_same)

lemma clear_cvTextarea: "cvTextarea (clearFieldError j f) = cvTextarea f"
  by (simp add: cvTextarea_def clear_elements first_index_update)

lemma show_cvTextarea: "cvTextarea (showFieldError j m f) = cvTextarea f"
  by (simp add: cvTextarea_def show_elements first_index_update)

lemma clear_cvFile: "cvFile (clearFieldError j f) = cvFile f"
  by (simp add: cvFile_def clear_elements first_index_update)

lemma show_cvFile: "cvFile (showFieldError j m f) = cvFile f"
  by (simp add: cvFile_def show_elements first_index_update)

text \<open>The loop over the required fields.\<close>

lemma validateFields_action: "form_action (fst (validateFields js f b)) = form_action f"
  by (induction js f b rule: validateFields.induct) (simp_all add: clear_action show_action)

lemma validateFields_value:
  "el_value (form_elements (fst (validateFields js f b)) ! i) = el_value (form_elements f ! i)"
  by (induction js f b rule: validateFields.induct) (simp_all add: clear_value show_value)

lemma validateFields_parent:
  "el_parent (form_elements (fst (validateFields js f b)) ! i) = el_parent (form_elements f ! i)"
  by (induction js f b rule: validateFields.induct) (simp_all add: clear_parent show_parent)

lemma validateFields_files:
  "el_files (form_elements (fst (validateFields js f b)) ! i) = el_files (form_elements f ! i)"
  by (induction js f b rule: validateFields.induct) (simp_all add: clear_files show_files)

lemma validateFields_cvTextarea: "cvTextarea (fst (validateFields js f b)) = cvTextarea f"
  by (induction js f b rule: validateFields.induct) (simp_all add: clear_cvTextarea show_cvTextarea)

lemma validateFields_cvFile: "cvFile (fst (validateFields js f b)) = cvFile f"
  by (induction js f b rule: validateFields.induct) (simp_all add: clear_cvFile show_cvFile)

lemma validateFields_length:
  "length (form_elements (fst (validateFields js f b))) = length (form_elements f)"
  by (induction js f b rule: validateFields.induct) (simp_all add: clear_elements show_elements)

lemma validateFields_valid:
  "snd (validateFields js f b) = (b \<and> (\<forall>i \<in> set js. trim (el_value (form_elements f ! i)) \<noteq> []))"
  by (induction js f b rule: validateFields.induct) (auto simp: clear_value show_value)

lemma validateFields_untouched:
  "i \<notin> set js \<Longrightarrow> form_elements (fst (validateFields js f b)) ! i = form_elements f ! i"
  by (induction js f b rule: validateFields.induct) (auto simp: clear_elements show_elements)

lemma validateFields_border:
  assumes "i \<in> set js" "distinct js" "i < length (form_elements f)"
    "trim (el_value (form_elements f ! i)) = []"
  shows "el_borderColor (form_elements (fst (validateFields js f b)) ! i) = ''#e74c3c''"
  using assms
proof (induction js f b rule: validateFields.induct)
  case (1 f isValid)
  then show ?case by simp
next
  case (2 j rest f isValid)
  show ?case
  proof (cases "i = j")
    case True
    with 2 have "i \<notin> set rest" by simp
    with True 2 show ?thesis
      by (simp add: validateFields_untouched show_elements)
  next
    case False
    with 2 show ?thesis
      by (simp add: clear_value show_value clear_elements show_elements)
  qed
qed

lemma remove_first_keeps: "x \<in> set xs \<Longrightarrow> \<not> P x \<Longrightarrow> x \<in> set (remove_first P xs)"
  by (induction xs) auto

lemma clear_keeps_error:
  "err \<in> set (form_errors f) \<Longrightarrow> fst err \<noteq> el_parent (form_elements f ! j) \<Longrightarrow>
     err \<in> set (form_errors (clearFieldError j f))"
  by (simp add: clearFieldError_def remove_first_keeps)

lemma show_keeps_error:
  "err \<in> set (form_errors f) \<Longrightarrow> fst err \<noteq> el_parent (form_elements f ! j) \<Longrightarrow>
     err \<in> set (form_errors (showFieldError j m f))"
  by (simp add: showFieldError_def Let_def clear_keeps_error)

lemma show_adds_error:
  "(el_parent (form_elements f ! j), m) \<in> set (form_errors (showFieldError j m f))"
  by (simp add: showFieldError_def Let_def clear_parent)

lemma validateFields_keeps_error:
  "err \<in> set (form_errors f) \<Longrightarrow> \<forall>j \<in> set js. el_parent (form_elements f ! j) \<noteq> fst err \<Longrightarrow>
     err \<in> set (form_errors (fst (validateFields js f b)))"
proof (induction js f b rule: validateFields.induct)
  case (1 f isValid)
  then show ?case by simp
next
  case (2 j rest f isValid)
  from "2.prems" have j: "fst err \<noteq> el_parent (form_elements f ! j)" by auto
  show ?case
  proof (cases "trim (el_value (form_elements f ! j)) = []")
    case True
    from "2.prems"(1) j have "err \<in> set (form_errors (showFieldError j ''This field is required'' f))"
      by (rule show_keeps_error)
    moreover from "2.prems"(2)
    have "\<forall>k \<in> set rest. el_parent (form_elements (showFieldError j ''This field is required'' f) ! k) \<noteq> fst err"
      by (simp add: show_parent)
    ultimately show ?thesis using True "2.IH"(1) by simp
  next
    case False
    from "2.prems"(1) j have "err \<in> set (form_errors (clearFieldError j f))"
      by (rule clear_keeps_error)
    moreover from "2.prems"(2)
    have "\<forall>k \<in> set rest. el_parent (form_elements (clearFieldError j f) ! k) \<noteq> fst err"
      by (simp add: clear_parent)
    ultimately show ?thesis using False "2.IH"(2) by simp
  qed
qed

lemma validateFields_error:
  assumes "i \<in> set js" "trim (el_value (form_elements f ! i)) = []"
    "\<forall>j \<in> set js. j \<noteq> i \<longrightarrow> el_parent (form_elements f ! j) \<noteq> el_parent (form_elements f ! i)"
    "distinct js"
  shows "(el_parent (form_elements f ! i), ''This field is required'')
           \<in> set (form_errors (fst (validateFields js f b)))"
  using assms
proof (induction js f b rule: validateFields.induct)
  case (1 f isValid)
  then show ?case by simp
next
  case (2 j rest f isValid)
  let ?g = "showFieldError j ''This field is required'' f"
  show ?case
  proof (cases "i = j")
    case True
    have "(el_parent (form_elements f ! i), ''This field is required'') \<in> set (form_errors ?g)"
      using True by (simp add: show_adds_error)
    moreover from "2.prems" True
    have "\<forall>k \<in> set rest. el_parent (form_elements ?g ! k) \<noteq> el_parent (form_elements f ! i)"
      by (auto simp: show_parent)
    ultimately have "(el_parent (form_elements f ! i), ''This field is required'')
        \<in> set (form_errors (fst (validateFields rest ?g False)))"
      by (simp add: validateFields_keeps_error)
    with True "2.prems" show ?thesis by simp
  next
    case False
    with "2.prems" "2.IH" show ?thesis
      by (simp add: clear_value show_value clear_parent show_parent)
  qed
qed

lemma requiredFields_distinct: "distinct (requiredFields f)"
  by (simp add: requiredFields_def)

lemma requiredFields_set:
  "i \<in> set (requiredFields f) \<longleftrightarrow> i < length (form_elements f) \<and> el_required (form_elements f ! i)"
  by (auto simp: requiredFields_def)

lemma validateForm_other:
  "form_action f \<noteq> ''/analyze'' \<Longrightarrow>
     validateForm f =
       Returned (\<forall>i \<in> set (requiredFields f). trim (el_value (form_elements f ! i)) \<noteq> [])
         (fst (validateFields (requiredFields f) f True))"
  using validateFields_action [of "requiredFields f" f True]
    validateFields_valid [of "requiredFields f" f True]
  by (cases "validateFields (requiredFields f) f True") (simp add: validateForm_def)

lemma onSubmit_other:
  "form_action f \<noteq> ''/analyze'' \<Longrightarrow>
     onSubmit f =
       Returned (\<exists>i \<in> set (requiredFields f). trim (el_value (form_elements f ! i)) = [])
         (fst (validateFields (requiredFields f) f True))"
  by (simp add: onSubmit_def validateForm_other validateFields_action)

lemma hasFile_validateFields: "hasFile (fst (validateFields js f b)) = hasFile f"
  by (simp add: hasFile_def validateFields_cvFile validateFields_files cong: option.case_cong)

lemma hasText_validateFields: "hasText (fst (validateFields js f b)) i = hasText f i"
  by (simp add: hasText_def validateFields_value)

lemma validateForm_analyze:
  assumes "form_action f = ''/analyze''" "cvTextarea f = Some i"
  shows "validateForm f =
     Returned ((hasFile f \<or> hasText f i) \<and>
               (\<forall>j \<in> set (requiredFields f). trim (el_value (form_elements f ! j)) \<noteq> []))
       (set_required i (\<not> hasFile f \<and> \<not> hasText f i) (fst (validateFields (requiredFields f) f True)))"
  using assms validateFields_action [of "requiredFields f" f True]
    validateFields_valid [of "requiredFields f" f True]
    validateFields_cvTextarea [of "requiredFields f" f True]
    hasFile_validateFields [of "requiredFields f" f True]
    hasText_validateFields [of "requiredFields f" f True i]
  by (cases "validateFields (requiredFields f) f True") (auto simp: validateForm_def)

lemma set_required_action: "form_action (set_required i b f) = form_action f"
  by (simp add: set_required_def)

lemma onSubmit_analyze:
  assumes "form_action f = ''/analyze''" "cvTextarea f = Some i"
  shows "onSubmit f = Returned False
       (set_required i (\<not> hasFile f \<and> \<not> hasText f i) (fst (validateFields (requiredFields f) f True)))"
  using assms by (simp add: onSubmit_def validateForm_analyze set_required_action validateFields_action)

lemma onSubmit_analyze_throws:
  assumes "form_action f = ''/analyze''" "cvTextarea f = None"
  shows "onSubmit f = Thrown TypeError (fst (validateFields (requiredFields f) f True))"
  using assms validateFields_action [of "requiredFields f" f True]
    validateFields_cvTextarea [of "requiredFields f" f True]
  by (cases "validateFields (requiredFields f) f True") (simp add: onSubmit_def validateForm_def)

text \<open>
  On a form whose action is not \<^verbatim>\<open>/analyze\<close>, a blank required field makes the submit
  listener prevent the default and tints the field's border; the error text stays under
  the field's parent when no other required field has the same parent.
\<close>

theorem submit_blocks_blank_required:
  assumes "form_action f \<noteq> ''/analyze''"
    and "i < length (form_elements f)"
    and "el_required (form_elements f ! i)"
    and "trim (el_value (form_elements f ! i)) = []"
  shows "(\<exists>g. submitEvent f = Returned True g) \<and>
         el_borderColor (form_elements (state_of (submitEvent f)) ! i) = ''#e74c3c'' \<and>
         ((\<forall>j \<in> set (requiredFields f). j \<noteq> i \<longrightarrow>
              el_parent (form_elements f ! j) \<noteq> el_parent (form_elements f ! i)) \<longrightarrow>
          (el_parent (form_elements f ! i), ''This field is required'')
             \<in> set (form_errors (state_of (submitEvent f))))"
proof -
  let ?g = "fst (validateFields (requiredFields f) f True)"
  from assms have mem: "i \<in> set (requiredFields f)" by (simp add: requiredFields_set)
  with assms have ev: "submitEvent f = Returned True ?g"
    by (auto simp: submitEvent_def onSubmit_other)
  have "el_borderColor (form_elements ?g ! i) = ''#e74c3c''"
    using mem requiredFields_distinct assms(2,4) by (rule validateFields_border)
  moreover have "(\<forall>j \<in> set (requiredFields f). j \<noteq> i \<longrightarrow>
              el_parent (form_elements f ! j) \<noteq> el_parent (form_elements f ! i)) \<longrightarrow>
          (el_parent (form_elements f ! i), ''This field is required'') \<in> set (form_errors ?g)"
    using mem assms(4) requiredFields_distinct by (auto intro: validateFields_error)
  ultimately show ?thesis using ev by simp
qed

theorem submit_blocks_blank_required_witness:
  "submitEvent
     \<lparr>form_action = ''/match'',
      form_elements = [text_control ''title'' '' '' True 1, text_control ''user_skills'' ''Python'' True 2],
      form_errors = [], form_tips = 0\<rparr> =
   Returned True
     \<lparr>form_action = ''/match'',
      form_elements = [(text_control ''title'' '' '' True 1)\<lparr>el_borderColor := ''#e74c3c''\<rparr>,
                       text_control ''user_skills'' ''Python'' True 2],
      form_errors = [(1, ''This field is required'')], form_tips = 0\<rparr> \<and>
   (1, ''This field is required'') \<in> set (form_errors (state_of (submitEvent
     \<lparr>form_action = ''/match'',
      form_elements = [text_control ''title'' '' '' True 1, text_control ''user_skills'' ''Python'' True 2],
      form_errors = [], form_tips = 0\<rparr>)))"
proof -
  let ?f = "\<lparr>form_action = ''/match'',
      form_elements = [text_control ''title'' '' '' True 1, text_control ''user_skills'' ''Python'' True 2],
      form_errors = [], form_tips = 0\<rparr>"
  have a: "form_action ?f \<noteq> ''/analyze''" by simp
  have b: "0 < length (form_elements ?f)" by simp
  have c: "el_required (form_elements ?f ! 0)" by (simp add: text_control_def)
  have d: "trim (el_value (form_elements ?f ! 0)) = []" by code_simp
  have e: "\<forall>j \<in> set (requiredFields ?f). j \<noteq> 0 \<longrightarrow>
              el_parent (form_elements ?f ! j) \<noteq> el_parent (form_elements ?f ! 0)"
    by code_simp
  have f: "el_parent (form_elements ?f ! 0) = 1" by (simp add: text_control_def)
  have g: "submitEvent ?f = Returned True
     \<lparr>form_action = ''/match'',
      form_elements = [(text_control ''title'' '' '' True 1)\<lparr>el_borderColor := ''#e74c3c''\<rparr>,
                       text_control ''user_skills'' ''Python'' True 2],
      form_errors = [(1, ''This field is required'')], form_tips = 0\<rparr>"
    by code_simp
  from submit_blocks_blank_required [OF a b c d] e f
  have "(1, ''This field is required'') \<in> set (form_errors (state_of (submitEvent ?f)))"
    by simp
  with g show ?thesis by simp
qed

text \<open>
  On the analyze form the submit listeners never prevent the default, and on a form with
  the \<^verbatim>\<open>cv_text\<close> textarea they leave the textarea required exactly when it is blank
  and no file is selected.
\<close>

theorem analyze_submit_not_prevented:
  assumes "form_action f = ''/analyze''"
  shows "submitEvent f \<noteq> Returned True g \<and>
         (\<forall>i. cvTextarea f = Some i \<longrightarrow>
            (\<exists>h. submitEvent f = Returned False h \<and>
                 el_required (form_elements h ! i) =
                   (trim (el_value (form_elements f ! i)) = [] \<and> \<not> hasFile f)))"
proof -
  let ?s = "state_of (syncRequired f)"
  have act: "form_action ?s = ''/analyze''"
    using assms by (auto simp: syncRequired_def set_required_action split: option.splits)
  have ev: "submitEvent f = onSubmit ?s" using assms by (simp add: submitEvent_def)
  have "onSubmit ?s \<noteq> Returned True g"
  proof (cases "cvTextarea ?s")
    case None
    with act show ?thesis by (simp add: onSubmit_analyze_throws)
  next
    case (Some k)
    with act show ?thesis by (simp add: onSubmit_analyze)
  qed
  moreover have "\<exists>h. submitEvent f = Returned False h \<and>
                 el_required (form_elements h ! i) =
                   (trim (el_value (form_elements f ! i)) = [] \<and> \<not> hasFile f)"
    if i: "cvTextarea f = Some i" for i
  proof -
    let ?b = "trim (el_value (form_elements f ! i)) = [] \<and> \<not> hasFile f"
    from i have len: "i < length (form_elements f)"
      by (auto simp: cvTextarea_def dest: first_index_Some)
    from i have s: "?s = set_required i ?b f"
      by (simp add: syncRequired_eq hasText_def)
    then have cs: "cvTextarea ?s = Some i" using i by (simp add: cvTextarea_set_required)
    let ?v = "fst (validateFields (requiredFields ?s) ?s True)"
    let ?c = "\<not> hasFile ?s \<and> \<not> hasText ?s i"
    have "onSubmit ?s = Returned False (set_required i ?c ?v)"
      using act cs by (rule onSubmit_analyze)
    moreover have "?c = ?b"
      by (simp add: s hasFile_set_required hasText_def el_value_set_required conj_commute)
    moreover have "i < length (form_elements ?v)"
      using len by (simp add: validateFields_length s set_required_def)
    ultimately show ?thesis using ev by (simp add: el_required_set_required)
  qed
  ultimately show ?thesis using ev by simp
qed

theorem analyze_submit_not_prevented_witness:
  "form_action (analyze_form [] False []) = ''/analyze'' \<and>
   cvTextarea (analyze_form [] False []) = Some 0 \<and>
   (\<exists>h. submitEvent (analyze_form [] False []) = Returned False h \<and>
        el_required (form_elements h ! 0))"
proof -
  have a: "form_action (analyze_form [] False []) = ''/analyze''" by (simp add: analyze_form_def)
  have b: "cvTextarea (analyze_form [] False []) = Some 0" by code_simp
  have c: "trim (el_value (form_elements (analyze_form [] False []) ! 0)) = [] \<and>
           \<not> hasFile (analyze_form [] False [])"
    by code_simp
  from analyze_submit_not_prevented [OF a] b c
  have "\<exists>h. submitEvent (analyze_form [] False []) = Returned False h \<and>
        el_required (form_elements h ! 0)"
    by simp
  with a b show ?thesis by simp
qed

text \<open>
  Claim C4, on the analyze form with an empty textarea and no file (the state after a
  picked file has been removed again). The submit is not prevented, and the required
  attribute is set again; but the loop over the required fields, which runs for every
  form, has by then put the inline error under the textarea and tinted its border, so
  the inline-error path is not suppressed.
\<close>

theorem analyze_submit_inline_error:
  "submitEvent (analyze_form [] False []) =
     Returned False
       \<lparr>form_action = ''/analyze'',
        form_elements = [(cv_text_control [] True)\<lparr>el_borderColor := ''#e74c3c''\<rparr>, cv_file_control []],
        form_errors = [(1, ''This field is required'')], form_tips = 0\<rparr>"
  by code_simp

text \<open>
  Two required fields under one parent, the first blank and the second filled: the submit
  is prevented and the first field's border is tinted, but clearing the second field's
  error removes the first field's error text, and none is left.
\<close>

theorem sibling_clears_inline_error:
  "onSubmit \<lparr>form_action = ''/match'',
        form_elements = [text_control ''title'' [] True 1, text_control ''user_skills'' ''Python'' True 1],
        form_errors = [], form_tips = 0\<rparr> =
     Returned True
       \<lparr>form_action = ''/match'',
        form_elements = [(text_control ''title'' [] True 1)\<lparr>el_borderColor := ''#e74c3c''\<rparr>,
                         text_control ''user_skills'' ''Python'' True 1],
        form_errors = [], form_tips = 0\<rparr>"
  by code_simp

subsection \<open>Pages that lack an element\<close>

text \<open>
  Claim C6, on pages that lack an element. An analyze form with the textarea and no
  \<^verbatim>\<open>#cv_file\<close> makes \<open>initializeFormValidation\<close> throw after one listener; an
  analyze form without the textarea makes it throw before any; a \<^verbatim>\<open>cv_text\<close>
  textarea on a page with no analyze form makes \<open>initializeCVAnalysis\<close> throw in
  \<open>showCVTips\<close>; \<open>addSkillTag\<close> throws on a page without the skills input; and
  \<open>showSkillSuggestions\<close> throws whenever it has suggestions to show, since it passes a
  string where \<open>showSuggestionsDropdown\<close> reads \<^verbatim>\<open>input.parentNode.style\<close>.
\<close>

theorem missing_elements_throw:
  "initializeFormValidation
     [\<lparr>form_action = ''/analyze'', form_elements = [cv_text_control [] True],
       form_errors = [], form_tips = 0\<rparr>] = Thrown TypeError [SyncRequiredOnInput 0] \<and>
   initializeFormValidation
     [\<lparr>form_action = ''/analyze'', form_elements = [cv_file_control []],
       form_errors = [], form_tips = 0\<rparr>] = Thrown TypeError [] \<and>
   initializeCVAnalysis
     [\<lparr>form_action = ''/upload'', form_elements = [cv_text_control [] True],
       form_errors = [], form_tips = 0\<rparr>] =
     Thrown TypeError [\<lparr>form_action = ''/upload'', form_elements = [cv_text_control [] True],
       form_errors = [], form_tips = 0\<rparr>] \<and>
   addSkillTag ''Python'' (loaded_page\<lparr>user_skills := None\<rparr>) =
     Thrown TypeError (loaded_page\<lparr>user_skills := None\<rparr>) \<and>
   showSkillSuggestions ''py'' loaded_page = Thrown TypeError loaded_page"
  by code_simp

end
